theory Spec2Isabelle
  imports Complex_Main
begin

section \<open>Pump and valve test rig: controller, frame codec, pressure reader, forward test\<close>

text \<open>
  The development embeds \<^verbatim>\<open>main.py\<close>: the class \<^verbatim>\<open>DCONController\<close> (serial
  connection, command frames, the analog read with its calibration) and the forward test
  of \<^verbatim>\<open>MainFrame\<close>.  Python integers are \<^typ>\<open>int\<close>; the floats and their
  operations are a parameter of the model, instantiated with IEEE 754 doubles; a decoded
  response line is a \<^typ>\<open>string\<close> whose characters are code points below 256.  An
  exception is a value of \<open>exn\<close>; every \<^verbatim>\<open>try\<close> block of the source is a case
  distinction on it.
\<close>

subsection \<open>Python exceptions and helpers on built-in types\<close>

datatype exn = IndexError | ValueError | ZeroDivisionError | SerialException

text \<open>\<^verbatim>\<open>xs[i]\<close> for a Python list: a negative index counts from the end, an index
  outside the list raises \<^verbatim>\<open>IndexError\<close>.\<close>

definition py_getitem :: "'a list \<Rightarrow> int \<Rightarrow> exn + 'a" where
  "py_getitem xs i =
     (if 0 \<le> i then (if i < int (length xs) then Inr (xs ! nat i) else Inl IndexError)
      else (if - int (length xs) \<le> i then Inr (xs ! nat (int (length xs) + i))
            else Inl IndexError))"

text \<open>\<^verbatim>\<open>xs[i] = v\<close> with the same index rules.\<close>

definition py_setitem :: "'a list \<Rightarrow> int \<Rightarrow> 'a \<Rightarrow> exn + 'a list" where
  "py_setitem xs i v =
     (if 0 \<le> i then (if i < int (length xs) then Inr (xs[nat i := v]) else Inl IndexError)
      else (if - int (length xs) \<le> i then Inr (xs[nat (int (length xs) + i) := v])
            else Inl IndexError))"

text \<open>The slice \<^verbatim>\<open>xs[:n]\<close>: a negative bound counts from the end and is clipped.\<close>

definition py_slice_to :: "'a list \<Rightarrow> int \<Rightarrow> 'a list" where
  "py_slice_to xs n = (if 0 \<le> n then take (nat n) xs else take (nat (int (length xs) + n)) xs)"

text \<open>Rounding a real number to the nearest integer, a tie going to the even neighbour,
  and to the nearest multiple of 0.01 in the same way.\<close>

definition round_half_even :: "real \<Rightarrow> int" where
  "round_half_even y =
     (let f = \<lfloor>y\<rfloor>; d = y - of_int f
      in if d < 1 / 2 then f else if 1 / 2 < d then f + 1 else if even f then f else f + 1)"

definition py_round2 :: "real \<Rightarrow> real" where
  "py_round2 x = of_int (round_half_even (x * 100)) / 100"

subsection \<open>Double-precision numbers\<close>

text \<open>A Python \<^verbatim>\<open>float\<close> is an IEEE 754 binary64 number: a finite value, an infinity or
  a NaN.  The two zeros of the format are one value here, as they are for \<^verbatim>\<open>==\<close> and
  \<^verbatim>\<open>>\<close>, the only tests that the program makes on these numbers.\<close>

datatype pyfloat = Fin real | PInf | MInf | NaN

definition pow2 :: "int \<Rightarrow> real" where
  "pow2 k = (if 0 \<le> k then 2 ^ nat k else 1 / 2 ^ nat (- k))"

text \<open>The binary exponent of a positive number, found by halving or doubling it into
  the interval from 1 to 2: \<open>exponent a = k\<close> with \<open>pow2 k \<le> a < pow2 (k + 1)\<close> for a
  normal \<open>a\<close>; below the normal range the exponent stays at -1022, the exponent of the
  subnormal numbers.\<close>

fun halvings :: "nat \<Rightarrow> real \<Rightarrow> int" where
  "halvings fuel a = (if fuel = 0 \<or> a < 2 then 0 else 1 + halvings (fuel - 1) (a / 2))"

fun doublings :: "nat \<Rightarrow> real \<Rightarrow> int" where
  "doublings fuel a = (if fuel = 0 \<or> 1 \<le> a then 0 else doublings (fuel - 1) (2 * a) - 1)"

declare halvings.simps [simp del] doublings.simps [simp del]

definition exponent :: "real \<Rightarrow> int" where
  "exponent a = (if 1 \<le> a then halvings 1024 a else max (doublings 1022 a) (- 1022))"

text \<open>Rounding to nearest, ties to the even significand: the value is brought to a
  significand of 53 bits at its exponent and rounded there; a result of magnitude
  \<open>2 ^ 1024\<close> or more is an infinity.\<close>

definition nearest_double :: "real \<Rightarrow> real" where
  "nearest_double x =
     (if x = 0 then 0
      else (let q = pow2 (exponent \<bar>x\<bar> - 52) in of_int (round_half_even (x / q)) * q))"

definition rnd :: "real \<Rightarrow> pyfloat" where
  "rnd x =
     (let r = nearest_double x
      in if pow2 1024 \<le> r then PInf else if r \<le> - pow2 1024 then MInf else Fin r)"

text \<open>Subtraction, multiplication and division of doubles: the exact result, rounded;
  the special values as the standard has them.  \<open>d_div\<close> is applied to a divisor that
  is not zero (Python raises \<^verbatim>\<open>ZeroDivisionError\<close> before it divides by zero).\<close>

fun d_sub :: "pyfloat \<Rightarrow> pyfloat \<Rightarrow> pyfloat" where
  "d_sub NaN y = NaN"
| "d_sub x NaN = NaN"
| "d_sub (Fin a) (Fin b) = rnd (a - b)"
| "d_sub (Fin a) PInf = MInf"
| "d_sub (Fin a) MInf = PInf"
| "d_sub PInf PInf = NaN"
| "d_sub PInf y = PInf"
| "d_sub MInf MInf = NaN"
| "d_sub MInf y = MInf"

definition signed_inf :: "bool \<Rightarrow> pyfloat" where
  "signed_inf positive = (if positive then PInf else MInf)"

fun d_mul :: "pyfloat \<Rightarrow> pyfloat \<Rightarrow> pyfloat" where
  "d_mul NaN y = NaN"
| "d_mul x NaN = NaN"
| "d_mul (Fin a) (Fin b) = rnd (a * b)"
| "d_mul (Fin a) PInf = (if a = 0 then NaN else signed_inf (0 < a))"
| "d_mul (Fin a) MInf = (if a = 0 then NaN else signed_inf (a < 0))"
| "d_mul PInf (Fin b) = (if b = 0 then NaN else signed_inf (0 < b))"
| "d_mul MInf (Fin b) = (if b = 0 then NaN else signed_inf (b < 0))"
| "d_mul PInf PInf = PInf"
| "d_mul PInf MInf = MInf"
| "d_mul MInf PInf = MInf"
| "d_mul MInf MInf = PInf"

fun d_div :: "pyfloat \<Rightarrow> pyfloat \<Rightarrow> pyfloat" where
  "d_div NaN y = NaN"
| "d_div x NaN = NaN"
| "d_div (Fin a) (Fin b) = rnd (a / b)"
| "d_div (Fin a) y = Fin 0"
| "d_div PInf (Fin b) = signed_inf (0 < b)"
| "d_div MInf (Fin b) = signed_inf (b < 0)"
| "d_div x y = NaN"

fun d_abs :: "pyfloat \<Rightarrow> pyfloat" where
  "d_abs (Fin a) = Fin \<bar>a\<bar>"
| "d_abs PInf = PInf"
| "d_abs MInf = PInf"
| "d_abs NaN = NaN"

text \<open>\<^verbatim>\<open>round(x, 2)\<close> on a double: an infinity or a NaN is returned as it is; a finite
  \<open>x\<close> is rounded, as the exact number that it is, to the nearest multiple of 0.01 (a tie
  going to the even neighbour), and the double nearest to that decimal is the result.\<close>

fun d_round2 :: "pyfloat \<Rightarrow> pyfloat" where
  "d_round2 (Fin a) = rnd (py_round2 a)"
| "d_round2 x = x"

text \<open>The comparison \<^verbatim>\<open>x > y\<close>, false when either side is a NaN.\<close>

fun d_gt :: "pyfloat \<Rightarrow> pyfloat \<Rightarrow> bool" where
  "d_gt NaN y = False"
| "d_gt x NaN = False"
| "d_gt (Fin a) (Fin b) = (b < a)"
| "d_gt (Fin a) PInf = False"
| "d_gt (Fin a) MInf = True"
| "d_gt PInf PInf = False"
| "d_gt PInf y = True"
| "d_gt MInf y = False"

subsection \<open>The arithmetic of the program as a parameter\<close>

text \<open>The operations that the program applies to its floats: the conversion of a decimal
  literal of the source, subtraction, multiplication, division, the test \<^verbatim>\<open>x == 0\<close> that
  makes a division raise, \<^verbatim>\<open>abs\<close>, \<^verbatim>\<open>round(x, 2)\<close> and the comparison \<^verbatim>\<open>x > y\<close> of
  \<^verbatim>\<open>max\<close>.  The program runs on \<open>double_arith\<close>; \<open>real_arith\<close> is the same formula over
  the real numbers, with nothing rounded but \<^verbatim>\<open>round\<close>.\<close>

record 'f arith =
  lit :: "real \<Rightarrow> 'f"
  fsub :: "'f \<Rightarrow> 'f \<Rightarrow> 'f"
  fmul :: "'f \<Rightarrow> 'f \<Rightarrow> 'f"
  fdiv :: "'f \<Rightarrow> 'f \<Rightarrow> 'f"
  fzero :: "'f \<Rightarrow> bool"
  fabs :: "'f \<Rightarrow> 'f"
  fround2 :: "'f \<Rightarrow> 'f"
  fgt :: "'f \<Rightarrow> 'f \<Rightarrow> bool"

definition double_arith :: "pyfloat arith" where
  "double_arith =
     \<lparr> lit = rnd, fsub = d_sub, fmul = d_mul, fdiv = d_div, fzero = (\<lambda>x. x = Fin 0),
       fabs = d_abs, fround2 = d_round2, fgt = d_gt \<rparr>"

definition real_arith :: "real arith" where
  "real_arith =
     \<lparr> lit = (\<lambda>x. x), fsub = (\<lambda>x y. x - y), fmul = (\<lambda>x y. x * y), fdiv = (\<lambda>x y. x / y),
       fzero = (\<lambda>x. x = 0), fabs = (\<lambda>x. \<bar>x\<bar>), fround2 = py_round2, fgt = (\<lambda>x y. y < x) \<rparr>"

text \<open>\<^verbatim>\<open>max(xs)\<close> raises \<^verbatim>\<open>ValueError\<close> on an empty sequence; otherwise it keeps the first
  item until a later one compares greater.\<close>

fun py_max :: "'f arith \<Rightarrow> 'f list \<Rightarrow> exn + 'f" where
  "py_max ar [] = Inl ValueError"
| "py_max ar (x # xs) = Inr (fold (\<lambda>y m. if fgt ar y m then y else m) xs x)"

subsection \<open>String formatting and splitting\<close>

definition hex_digit :: "nat \<Rightarrow> char" where
  "hex_digit d = ''0123456789ABCDEF'' ! d"

fun to_hex :: "nat \<Rightarrow> string" where
  "to_hex n = (if n < 16 then [hex_digit n] else to_hex (n div 16) @ [hex_digit (n mod 16)])"

declare to_hex.simps [simp del]

definition zfill :: "nat \<Rightarrow> string \<Rightarrow> string" where
  "zfill w s = replicate (w - length s) (CHR ''0'') @ s"

text \<open>The format specification \<^verbatim>\<open>0wX\<close> applied to an integer: upper-case hexadecimal,
  a minus sign for a negative number, zeros between the sign and the digits up to the
  width \<open>w\<close>; a number that needs more than \<open>w\<close> characters is not truncated.\<close>

definition format_X :: "nat \<Rightarrow> int \<Rightarrow> string" where
  "format_X w n =
     (if n < 0 then CHR ''-'' # zfill (w - 1) (to_hex (nat (- n))) else zfill w (to_hex (nat n)))"

definition CR :: char where
  "CR = CHR 0x0D"

text \<open>Whitespace of a Python \<^verbatim>\<open>str\<close> among the code points below 256.\<close>

definition is_space :: "char \<Rightarrow> bool" where
  "is_space ch = (of_char ch \<in> {9, 10, 11, 12, 13, 28, 29, 30, 31, 32, 133, 160 :: nat})"

definition strip :: "string \<Rightarrow> string" where
  "strip s = rev (dropWhile is_space (rev (dropWhile is_space s)))"

text \<open>\<^verbatim>\<open>s.split()\<close>: the maximal runs of non-whitespace characters; \<open>cur\<close> is the token
  being read, reversed.\<close>

fun split_acc :: "string \<Rightarrow> string \<Rightarrow> string list" where
  "split_acc cur [] = (if cur = [] then [] else [rev cur])"
| "split_acc cur (ch # s) =
     (if is_space ch then (if cur = [] then split_acc [] s else rev cur # split_acc [] s)
      else split_acc (ch # cur) s)"

definition split :: "string \<Rightarrow> string list" where
  "split s = split_acc [] s"

subsection \<open>The controller object and the serial line\<close>

text \<open>A \<^verbatim>\<open>serial.Serial\<close> object: an identity and its \<^verbatim>\<open>is_open\<close> attribute.\<close>

record serial_port =
  sid :: nat
  is_open :: bool

text \<open>The attributes of \<^verbatim>\<open>DCONController\<close> that the modelled methods read or write
  (the link parameters only feed the constructor of the port, whose outcome is given by
  the environment; the lock orders whole exchanges and has no sequential content).\<close>

record 'f controller =
  ser :: "serial_port option"
  adrDO :: int
  adrAO :: int
  valve1 :: int
  valve2 :: int
  valve3 :: int
  valve4 :: int
  startPUMP :: int
  plusPUMP :: int
  minusPUMP :: int
  pressureChanel :: int
  minMA :: 'f
  maxMA :: 'f
  minP :: 'f
  maxP :: 'f
  pressurePOSLE :: 'f
  stop_igra :: bool
  plus_counter :: int
  minus_counter :: int
  fixed_open :: 'f
  fixed_close :: 'f
  plus_dim_press :: "'f list"
  plus_step :: int
  minus_step :: int

text \<open>\<^verbatim>\<open>DCONController.__init__\<close>.\<close>

definition init_controller :: "'f arith \<Rightarrow> 'f controller" where
  "init_controller ar =
     \<lparr> ser = None, adrDO = 1, adrAO = 2, valve1 = 1, valve2 = 4, valve3 = 3, valve4 = 2,
       startPUMP = 5, plusPUMP = 6, minusPUMP = 7, pressureChanel = 5,
       minMA = lit ar (386 / 100), maxMA = lit ar (19368 / 1000),
       minP = lit ar 0, maxP = lit ar 6,
       pressurePOSLE = lit ar 0, stop_igra = False, plus_counter = 0, minus_counter = 0,
       fixed_open = lit ar 0, fixed_close = lit ar 0, plus_dim_press = replicate 41 (lit ar 0),
       plus_step = 80, minus_step = 40 \<rparr>"

text \<open>What the serial line does during one exchange (one call of \<^verbatim>\<open>send_command\<close> or
  \<^verbatim>\<open>read_7019_2\<close>): whether constructing the port succeeds and which port object it
  gives (\<open>None\<close>: the constructor raises), whether \<^verbatim>\<open>write\<close> raises, and the decoded
  line that \<^verbatim>\<open>readline().decode()\<close> gives (\<open>None\<close>: one of the two raises).\<close>

record io_outcome =
  opened :: "nat option"
  write_raises :: bool
  response :: "string option"

type_synonym env = "nat \<Rightarrow> io_outcome"

text \<open>The observable side of the line: the number of exchanges so far (the index into
  the environment), the number of ports constructed, and the frames written.\<close>

record world =
  tick :: nat
  opens :: nat
  wire :: "string list"

definition init_world :: world where
  "init_world = \<lparr> tick = 0, opens = 0, wire = [] \<rparr>"

type_synonym 'f sys = "'f controller \<times> world"

definition next_exchange :: "world \<Rightarrow> world" where
  "next_exchange w = w\<lparr>tick := Suc (tick w)\<rparr>"

text \<open>\<^verbatim>\<open>connect\<close>: constructs a new port object and assigns it to \<^verbatim>\<open>self.ser\<close>; when
  the constructor raises, the assignment does not happen.\<close>

definition connect :: "env \<Rightarrow> 'f sys \<Rightarrow> bool \<times> 'f sys" where
  "connect e s =
     (case s of (c, w) \<Rightarrow>
        (case opened (e (tick w)) of
           Some h \<Rightarrow> (True, c\<lparr>ser := Some \<lparr>sid = h, is_open = True\<rparr>\<rparr>, w\<lparr>opens := Suc (opens w)\<rparr>)
         | None \<Rightarrow> (False, c, w\<lparr>opens := Suc (opens w)\<rparr>)))"

text \<open>\<^verbatim>\<open>disconnect\<close>.\<close>

definition disconnect :: "'f controller \<Rightarrow> 'f controller" where
  "disconnect c =
     (case ser c of
        Some h \<Rightarrow> (if is_open h then c\<lparr>ser := Some (h\<lparr>is_open := False\<rparr>)\<rparr> else c)
      | None \<Rightarrow> c)"

text \<open>The test \<^verbatim>\<open>not self.ser or not self.ser.is_open\<close>.\<close>

definition not_open :: "'f controller \<Rightarrow> bool" where
  "not_open c = (case ser c of None \<Rightarrow> True | Some h \<Rightarrow> \<not> is_open h)"

text \<open>The two lines \<^verbatim>\<open>if not self.ser or not self.ser.is_open: if not self.connect(): return\<close>
  that open \<^verbatim>\<open>send_command\<close> and \<^verbatim>\<open>read_7019_2\<close>: \<open>False\<close> when the method
  returns there.\<close>

definition ensure_open :: "env \<Rightarrow> 'f sys \<Rightarrow> bool \<times> 'f sys" where
  "ensure_open e s = (if not_open (fst s) then connect e s else (True, s))"

text \<open>\<^verbatim>\<open>send_command\<close>: connects when there is no open port, writes the frame; every
  exception gives \<^verbatim>\<open>False\<close>.\<close>

definition write_frame :: "env \<Rightarrow> string \<Rightarrow> 'f sys \<Rightarrow> bool \<times> 'f sys" where
  "write_frame e command s =
     (case s of (c, w) \<Rightarrow>
        (if write_raises (e (tick w)) then (False, c, w)
         else (True, c, w\<lparr>wire := wire w @ [command]\<rparr>)))"

definition send_command :: "env \<Rightarrow> string \<Rightarrow> 'f sys \<Rightarrow> bool \<times> 'f sys" where
  "send_command e command s =
     (case ensure_open e s of
        (False, c, w) \<Rightarrow> (False, c, next_exchange w)
      | (True, s1) \<Rightarrow> (case write_frame e command s1 of (r, c, w) \<Rightarrow> (r, c, next_exchange w)))"

text \<open>\<^verbatim>\<open>send_705X_XX\<close>: the frame is built by the f-string; nothing is checked.\<close>

definition frame_705X :: "int \<Rightarrow> int \<Rightarrow> int \<Rightarrow> int \<Rightarrow> string" where
  "frame_705X module_id address channel val =
     format_X 4 module_id @ format_X 2 address @ format_X 2 channel @ format_X 2 val @ [CR]"

definition send_705X_XX :: "env \<Rightarrow> int \<Rightarrow> int \<Rightarrow> int \<Rightarrow> int \<Rightarrow> 'f sys \<Rightarrow> bool \<times> 'f sys" where
  "send_705X_XX e module_id address channel val s =
     send_command e (frame_705X module_id address channel val) s"

subsection \<open>The pressure reader\<close>

text \<open>The calibration of lines 118 and 119, in the arithmetic \<open>ar\<close>; the division raises
  for a zero span.  The constructor gives \<^verbatim>\<open>minP\<close> and \<^verbatim>\<open>maxP\<close> the integers 0 and 6; they
  are held as the floats of the same value, to which the multiplication converts their
  difference (for integers up to \<open>2 ^ 53\<close> the difference of the floats is that float).\<close>

definition pressure_norm :: "'f arith \<Rightarrow> 'f controller \<Rightarrow> 'f \<Rightarrow> exn + 'f" where
  "pressure_norm ar c pressure_raw =
     (if fzero ar (fsub ar (maxMA c) (minMA c)) then Inl ZeroDivisionError
      else Inr (fdiv ar (fmul ar (fabs ar (fsub ar pressure_raw (minMA c)))
                                  (fsub ar (maxP c) (minP c)))
                        (fsub ar (maxMA c) (minMA c))))"

text \<open>The part of \<^verbatim>\<open>read_7019_2\<close> after the line has been read.  The built-in
  \<^verbatim>\<open>float\<close> is the parameter \<open>flt\<close>, \<open>None\<close> where it raises \<^verbatim>\<open>ValueError\<close>.  The
  result is the exception that the enclosing handler catches, or the value returned
  together with the controller.\<close>

definition parse_response :: "'f arith \<Rightarrow> (string \<Rightarrow> 'f option) \<Rightarrow> string \<Rightarrow> 'f controller \<Rightarrow> exn + ('f option \<times> 'f controller)" where
  "parse_response ar flt line c =
     (let resp = strip line in
      if resp \<noteq> [] then
        (let vals = split resp in
         if int (length vals) > pressureChanel c then
           (case py_getitem vals (pressureChanel c) of
              Inl x \<Rightarrow> Inl x
            | Inr tok \<Rightarrow>
               (case flt tok of
                  None \<Rightarrow> Inl ValueError
                | Some pressure_raw \<Rightarrow>
                   (case pressure_norm ar c pressure_raw of
                      Inl x \<Rightarrow> Inl x
                    | Inr pn \<Rightarrow>
                       Inr (Some (fround2 ar pn), c\<lparr>pressurePOSLE := fround2 ar pn\<rparr>))))
         else Inr (None, c))
      else Inr (None, c))"

definition read_frame :: "'f controller \<Rightarrow> string" where
  "read_frame c = ''7017'' @ format_X 2 (adrAO c) @ ''00'' @ [CR]"

definition read_exchange :: "'f arith \<Rightarrow> env \<Rightarrow> (string \<Rightarrow> 'f option) \<Rightarrow> 'f sys \<Rightarrow> 'f option \<times> 'f sys" where
  "read_exchange ar e flt s =
     (case write_frame e (read_frame (fst s)) s of
        (False, s1) \<Rightarrow> (None, s1)
      | (True, c, w) \<Rightarrow>
         (case response (e (tick w)) of
            None \<Rightarrow> (None, c, w)
          | Some line \<Rightarrow>
             (case parse_response ar flt line c of
                Inl x \<Rightarrow> (None, c, w)
              | Inr (r, c1) \<Rightarrow> (r, c1, w))))"

text \<open>\<^verbatim>\<open>read_7019_2\<close>.\<close>

definition read_7019_2 :: "'f arith \<Rightarrow> env \<Rightarrow> (string \<Rightarrow> 'f option) \<Rightarrow> 'f sys \<Rightarrow> 'f option \<times> 'f sys" where
  "read_7019_2 ar e flt s =
     (case ensure_open e s of
        (False, c, w) \<Rightarrow> (None, c, next_exchange w)
      | (True, s1) \<Rightarrow> (case read_exchange ar e flt s1 of (r, c, w) \<Rightarrow> (r, c, next_exchange w)))"

subsection \<open>The window object and the forward test\<close>

text \<open>The attributes of \<^verbatim>\<open>MainFrame\<close> that the forward test reads or writes.  The
  source keeps the state of the pump and of each valve in the colour of its button:
  \<open>pump_red\<close> says that the pump button is red (pump started), \<open>*_green\<close> that a valve
  button is green (valve open).  Log lines and the graph are not modelled.\<close>

record 'f main_frame =
  controller :: "'f controller"
  is_test_running :: bool
  pump_red :: bool
  to_forward_green :: bool
  to_revers_green :: bool
  from_forward_green :: bool
  from_revers_green :: bool

type_synonym 'f fsys = "'f main_frame \<times> world"

definition init_frame :: "'f arith \<Rightarrow> 'f main_frame" where
  "init_frame ar =
     \<lparr> controller = init_controller ar, is_test_running = False, pump_red = False,
       to_forward_green = False, to_revers_green = False,
       from_forward_green = False, from_revers_green = False \<rparr>"

text \<open>A call \<^verbatim>\<open>self.controller.send_705X_XX(7050, self.controller.adrDO, self.controller.ch, value)\<close>
  whose result is dropped; \<open>ch\<close> is the attribute that names the output channel.\<close>

definition send_output :: "env \<Rightarrow> ('f controller \<Rightarrow> int) \<Rightarrow> int \<Rightarrow> 'f sys \<Rightarrow> 'f sys" where
  "send_output e ch val s = snd (send_705X_XX e 7050 (adrDO (fst s)) (ch (fst s)) val s)"

definition with_controller :: "('f sys \<Rightarrow> 'f sys) \<Rightarrow> 'f fsys \<Rightarrow> 'f fsys" where
  "with_controller m s =
     (case s of (f, w) \<Rightarrow> (case m (controller f, w) of (c, w1) \<Rightarrow> (f\<lparr>controller := c\<rparr>, w1)))"

definition set_button :: "('f main_frame \<Rightarrow> 'f main_frame) \<Rightarrow> 'f fsys \<Rightarrow> 'f fsys" where
  "set_button upd s = (upd (fst s), snd s)"

text \<open>\<^verbatim>\<open>on_pump_toggle\<close> and \<^verbatim>\<open>toggle_valve\<close> for the two valves of the forward path.\<close>

definition on_pump_toggle :: "env \<Rightarrow> 'f fsys \<Rightarrow> 'f fsys" where
  "on_pump_toggle e s =
     (if \<not> pump_red (fst s)
      then set_button (pump_red_update (\<lambda>_. True)) (with_controller (send_output e startPUMP 1) s)
      else set_button (pump_red_update (\<lambda>_. False)) (with_controller (send_output e startPUMP 0) s))"

definition on_to_forward :: "env \<Rightarrow> 'f fsys \<Rightarrow> 'f fsys" where
  "on_to_forward e s =
     (if \<not> to_forward_green (fst s)
      then set_button (to_forward_green_update (\<lambda>_. True)) (with_controller (send_output e valve1 1) s)
      else set_button (to_forward_green_update (\<lambda>_. False)) (with_controller (send_output e valve1 0) s))"

definition on_from_forward :: "env \<Rightarrow> 'f fsys \<Rightarrow> 'f fsys" where
  "on_from_forward e s =
     (if \<not> from_forward_green (fst s)
      then set_button (from_forward_green_update (\<lambda>_. True)) (with_controller (send_output e valve3 1) s)
      else set_button (from_forward_green_update (\<lambda>_. False)) (with_controller (send_output e valve3 0) s))"

text \<open>\<^verbatim>\<open>on_stop\<close> followed by the \<^verbatim>\<open>reset_buttons\<close> that it schedules.\<close>

definition raise_stop :: "'f sys \<Rightarrow> 'f sys" where
  "raise_stop s = ((fst s)\<lparr>stop_igra := True\<rparr>, snd s)"

definition stop_outputs :: "env \<Rightarrow> 'f sys \<Rightarrow> 'f sys" where
  "stop_outputs e s =
     send_output e minusPUMP 1 (send_output e startPUMP 0 (send_output e valve4 0
       (send_output e valve3 0 (send_output e valve2 0 (send_output e valve1 0 (raise_stop s))))))"

definition reset_buttons :: "'f main_frame \<Rightarrow> 'f main_frame" where
  "reset_buttons f =
     f\<lparr>pump_red := False, to_forward_green := False, to_revers_green := False,
       from_forward_green := False, from_revers_green := False\<rparr>"

definition on_stop :: "env \<Rightarrow> 'f fsys \<Rightarrow> 'f fsys" where
  "on_stop e s = set_button reset_buttons (with_controller (stop_outputs e) s)"

text \<open>The part of \<^verbatim>\<open>on_forward_test\<close> before the thread is started; \<open>None\<close> when a
  test is running and the handler returns at once.\<close>

definition reset_for_test :: "'f main_frame \<Rightarrow> 'f main_frame" where
  "reset_for_test f =
     f\<lparr>is_test_running := True,
       controller := (controller f)\<lparr>stop_igra := False, plus_counter := 0, minus_counter := 0\<rparr>\<rparr>"

definition on_forward_test :: "'f main_frame \<Rightarrow> 'f main_frame option" where
  "on_forward_test f = (if is_test_running f then None else Some (reset_for_test f))"

text \<open>The test runs in a thread of its own, and the STOP button is served by the GUI
  thread.  Of that thread, the model has the one assignment of \<^verbatim>\<open>on_stop\<close> that the test
  thread reads: \<open>stops t\<close> says that \<^verbatim>\<open>stop_igra = True\<close> is executed just before the
  test thread starts its exchange number \<open>t\<close>.\<close>

definition gui_stop :: "(nat \<Rightarrow> bool) \<Rightarrow> 'f sys \<Rightarrow> 'f sys" where
  "gui_stop stops s = (case s of (c, w) \<Rightarrow> (if stops (tick w) then c\<lparr>stop_igra := True\<rparr> else c, w))"

text \<open>A frame sent by the test thread.\<close>

definition test_output :: "(nat \<Rightarrow> bool) \<Rightarrow> env \<Rightarrow> ('f controller \<Rightarrow> int) \<Rightarrow> int \<Rightarrow> 'f sys \<Rightarrow> 'f sys" where
  "test_output stops e ch val s = send_output e ch val (gui_stop stops s)"

text \<open>Lines 332 to 337: the six frames of the baseline.\<close>

definition baseline :: "(nat \<Rightarrow> bool) \<Rightarrow> env \<Rightarrow> 'f sys \<Rightarrow> 'f sys" where
  "baseline stops e s =
     test_output stops e startPUMP 0 (test_output stops e valve4 0 (test_output stops e valve3 0
       (test_output stops e valve2 0 (test_output stops e valve1 0
         (test_output stops e minusPUMP 0 s)))))"

text \<open>Lines 340 to 344: the three handlers queued for the GUI thread, which runs them
  during the sleep of one second that follows.\<close>

definition activate :: "env \<Rightarrow> 'f fsys \<Rightarrow> 'f fsys" where
  "activate e s = on_from_forward e (on_to_forward e (on_pump_toggle e s))"

text \<open>Lines 352 to 354 of one iteration: the read and the store at \<^verbatim>\<open>plus_dim_press[step]\<close>.
  The first component is the exception that leaves the loop, if any.\<close>

definition sample_step :: "'f arith \<Rightarrow> (nat \<Rightarrow> bool) \<Rightarrow> env \<Rightarrow> (string \<Rightarrow> 'f option) \<Rightarrow> nat \<Rightarrow> 'f sys \<Rightarrow> exn option \<times> 'f sys" where
  "sample_step ar stops e flt step s =
     (case read_7019_2 ar e flt (gui_stop stops s) of
        (None, s1) \<Rightarrow> (None, s1)
      | (Some pressure, c, w) \<Rightarrow>
          (case py_setitem (plus_dim_press c) (int step) pressure of
             Inl x \<Rightarrow> (Some x, c, w)
           | Inr xs \<Rightarrow> (None, c\<lparr>plus_dim_press := xs\<rparr>, w)))"

text \<open>Lines 361 to 365 of one iteration: the pulse on the frequency output.\<close>

definition pulse_step :: "(nat \<Rightarrow> bool) \<Rightarrow> env \<Rightarrow> 'f sys \<Rightarrow> 'f sys" where
  "pulse_step stops e s = test_output stops e plusPUMP 0 (test_output stops e plusPUMP 1 s)"

text \<open>The loop of lines 347 to 365, with \<open>n\<close> iterations left and \<open>step\<close> the loop
  variable.  It ends when the range is exhausted, at the \<^verbatim>\<open>break\<close>, or with an
  exception.\<close>

primrec forward_loop :: "'f arith \<Rightarrow> (nat \<Rightarrow> bool) \<Rightarrow> env \<Rightarrow> (string \<Rightarrow> 'f option) \<Rightarrow> nat \<Rightarrow> nat \<Rightarrow> 'f sys \<Rightarrow> exn option \<times> 'f sys" where
  "forward_loop ar stops e flt 0 step s = (None, s)"
| "forward_loop ar stops e flt (Suc n) step s =
     (if stop_igra (fst s) then (None, s)
      else (case sample_step ar stops e flt step s of
              (Some x, s1) \<Rightarrow> (Some x, s1)
            | (None, s1) \<Rightarrow> forward_loop ar stops e flt n (Suc step) (pulse_step stops e s1)))"

text \<open>Lines 368 and 369: the maximum of \<^verbatim>\<open>plus_dim_press[:plus_counter]\<close>.\<close>

definition analyse :: "'f arith \<Rightarrow> 'f controller \<Rightarrow> exn option \<times> 'f controller" where
  "analyse ar c =
     (case py_max ar (py_slice_to (plus_dim_press c) (plus_counter c)) of
        Inl x \<Rightarrow> (Some x, c)
      | Inr max_pressure \<Rightarrow> (None, c\<lparr>fixed_open := max_pressure\<rparr>))"

text \<open>How a run ends: \<open>Completed\<close> when the \<^verbatim>\<open>try\<close> block reaches its end (the summary
  is logged), \<open>Failed x\<close> when the handler of line 375 catches \<open>x\<close> (the error is logged).\<close>

datatype status = Completed | Failed exn

text \<open>\<^verbatim>\<open>run_forward_test\<close>, up to the \<^verbatim>\<open>on_stop\<close> that its \<^verbatim>\<open>finally\<close> clause queues;
  \<open>prepare\<close> is its part before the loop (lines 332 to 344).\<close>

definition prepare :: "(nat \<Rightarrow> bool) \<Rightarrow> env \<Rightarrow> 'f fsys \<Rightarrow> 'f fsys" where
  "prepare stops e s = activate e (with_controller (baseline stops e) s)"

definition run_forward_test :: "'f arith \<Rightarrow> (nat \<Rightarrow> bool) \<Rightarrow> env \<Rightarrow> (string \<Rightarrow> 'f option) \<Rightarrow> 'f fsys \<Rightarrow> status \<times> 'f fsys" where
  "run_forward_test ar stops e flt s =
     (case prepare stops e s of
        (f, w) \<Rightarrow>
          (case forward_loop ar stops e flt (nat (plus_step (controller f))) 0 (controller f, w) of
             (Some x, c, w1) \<Rightarrow> (Failed x, f\<lparr>controller := c, is_test_running := False\<rparr>, w1)
           | (None, c, w1) \<Rightarrow>
               (case analyse ar c of
                  (Some x, c1) \<Rightarrow> (Failed x, f\<lparr>controller := c1, is_test_running := False\<rparr>, w1)
                | (None, c1) \<Rightarrow> (Completed, f\<lparr>controller := c1, is_test_running := False\<rparr>, w1))))"

text \<open>A whole forward test: the button handler, the thread, and the queued \<^verbatim>\<open>on_stop\<close>.
  \<open>None\<close> when the handler refuses because a test is running.\<close>

definition forward_test :: "'f arith \<Rightarrow> (nat \<Rightarrow> bool) \<Rightarrow> env \<Rightarrow> (string \<Rightarrow> 'f option) \<Rightarrow> 'f fsys \<Rightarrow> (status \<times> 'f fsys) option" where
  "forward_test ar stops e flt s =
     (case on_forward_test (fst s) of
        None \<Rightarrow> None
      | Some f \<Rightarrow> (case run_forward_test ar stops e flt (f, snd s) of
                     (st, s1) \<Rightarrow> Some (st, on_stop e s1)))"

text \<open>The loop of a test that the button starts in frame \<open>f\<close>: the handler resets the
  flags, the thread prepares the rig and enters the loop at step 0.\<close>

definition test_loop :: "'f arith \<Rightarrow> (nat \<Rightarrow> bool) \<Rightarrow> env \<Rightarrow> (string \<Rightarrow> 'f option) \<Rightarrow> 'f fsys \<Rightarrow> exn option \<times> 'f sys" where
  "test_loop ar stops e flt s =
     (case prepare stops e (reset_for_test (fst s), snd s) of
        (f, w) \<Rightarrow> forward_loop ar stops e flt (nat (plus_step (controller f))) 0 (controller f, w))"

subsection \<open>A decimal instance of the number parser\<close>

text \<open>\<^verbatim>\<open>float\<close> restricted to plain decimal literals: an optional sign, digits, and an
  optional point followed by digits, with at least one digit in all.  \<open>dec_value\<close> is the
  number that the literal denotes, \<open>dec_float\<close> the double nearest to it, which is what
  \<^verbatim>\<open>float\<close> returns.\<close>

definition digit_val :: "char \<Rightarrow> nat option" where
  "digit_val ch =
     (let k = of_char ch in if (48::nat) \<le> k \<and> k \<le> 57 then Some (k - 48) else None)"

fun digits_val :: "nat \<Rightarrow> string \<Rightarrow> nat option" where
  "digits_val acc [] = Some acc"
| "digits_val acc (ch # s) =
     (case digit_val ch of None \<Rightarrow> None | Some d \<Rightarrow> digits_val (10 * acc + d) s)"

definition unsigned_dec :: "string \<Rightarrow> real option" where
  "unsigned_dec s =
     (let ip = takeWhile (\<lambda>ch. ch \<noteq> CHR ''.'') s; rest = dropWhile (\<lambda>ch. ch \<noteq> CHR ''.'') s;
          fp = (case rest of [] \<Rightarrow> [] | _ # t \<Rightarrow> t)
      in if ip = [] \<and> fp = [] then None
         else (case (digits_val 0 ip, digits_val 0 fp) of
                 (Some a, Some b) \<Rightarrow> Some (real a + real b / 10 ^ length fp)
               | _ \<Rightarrow> None))"

definition dec_value :: "string \<Rightarrow> real option" where
  "dec_value s =
     (case s of
        [] \<Rightarrow> None
      | ch # t \<Rightarrow>
          (if ch = CHR ''-'' then map_option uminus (unsigned_dec t)
           else if ch = CHR ''+'' then unsigned_dec t
           else unsigned_dec s))"

definition dec_float :: "string \<Rightarrow> pyfloat option" where
  "dec_float s = map_option rnd (dec_value s)"

text \<open>A line that answers every exchange with the same tokens, on a line that opens and
  writes without fault.\<close>

definition steady :: "string \<Rightarrow> env" where
  "steady line = (\<lambda>t. \<lparr> opened = Some 1, write_raises = False, response = Some line \<rparr>)"

definition never :: "nat \<Rightarrow> bool" where
  "never t = False"

text \<open>A line on which no port can be opened.\<close>

definition unplugged :: env where
  "unplugged = (\<lambda>t. \<lparr> opened = None, write_raises = False, response = None \<rparr>)"

text \<open>A single press of the STOP button, just before exchange number \<open>t0\<close> of the test
  thread.\<close>

definition stop_before :: "nat \<Rightarrow> nat \<Rightarrow> bool" where
  "stop_before t0 t = (t = t0)"

text \<open>The line of the three-step scenario: every exchange succeeds; the read of step 0
  (exchange 9, after the six frames of the baseline and the three of the activation) is
  answered with a raw value that calibrates to 1.5, the read of step 2 (exchange 15) with
  one that calibrates to 4.0, and every other read with an empty line.\<close>

definition three_steps :: env where
  "three_steps =
     (\<lambda>t. \<lparr> opened = Some 1, write_raises = False,
            response = Some (if t = 9 then ''0 0 0 0 0 7.737''
                             else if t = 15 then ''0 0 0 0 0 14.199'' else []) \<rparr>)"

subsection \<open>Relations between controller states\<close>

text \<open>\<open>same_but_port c c'\<close>: the controller \<open>c'\<close> differs from \<open>c\<close> at most in the port
  object and in the published pressure, the two attributes that an exchange assigns.
  \<open>same_settings c c'\<close> also leaves the stop flag and the samples out of the comparison,
  the two attributes that the forward test and the STOP button assign.\<close>

definition same_but_port :: "'f controller \<Rightarrow> 'f controller \<Rightarrow> bool" where
  "same_but_port c c' = (c'\<lparr>ser := ser c, pressurePOSLE := pressurePOSLE c\<rparr> = c)"

definition same_settings :: "'f controller \<Rightarrow> 'f controller \<Rightarrow> bool" where
  "same_settings c c' =
     (c'\<lparr>ser := ser c, pressurePOSLE := pressurePOSLE c, stop_igra := stop_igra c,
         plus_dim_press := plus_dim_press c\<rparr> = c)"

section \<open>Properties\<close>

subsection \<open>What an exchange leaves untouched\<close>

lemma connect_keeps [simp]:
  "pressurePOSLE (fst (snd (connect e s))) = pressurePOSLE (fst s)"
  "plus_dim_press (fst (snd (connect e s))) = plus_dim_press (fst s)"
  "stop_igra (fst (snd (connect e s))) = stop_igra (fst s)"
  "plus_counter (fst (snd (connect e s))) = plus_counter (fst s)"
  "fixed_open (fst (snd (connect e s))) = fixed_open (fst s)"
  "tick (snd (snd (connect e s))) = tick (snd s)"
  by (simp_all add: connect_def split: prod.splits option.splits)

lemma ensure_open_keeps [simp]:
  "pressurePOSLE (fst (snd (ensure_open e s))) = pressurePOSLE (fst s)"
  "plus_dim_press (fst (snd (ensure_open e s))) = plus_dim_press (fst s)"
  "stop_igra (fst (snd (ensure_open e s))) = stop_igra (fst s)"
  "plus_counter (fst (snd (ensure_open e s))) = plus_counter (fst s)"
  "fixed_open (fst (snd (ensure_open e s))) = fixed_open (fst s)"
  "tick (snd (snd (ensure_open e s))) = tick (snd s)"
  by (simp_all add: ensure_open_def)

lemma parse_response_None:
  "parse_response ar flt line c = Inr (None, c1) \<Longrightarrow> c1 = c"
  by (auto simp: parse_response_def Let_def split: if_splits sum.splits option.splits)

lemma parse_response_Some:
  "parse_response ar flt line c = Inr (Some p, c1) \<Longrightarrow> c1 = c\<lparr>pressurePOSLE := p\<rparr>"
  by (auto simp: parse_response_def Let_def split: if_splits sum.splits option.splits)

lemma read_exchange_None:
  "read_exchange ar e flt s = (None, s1) \<Longrightarrow> fst s1 = fst s"
  by (cases s) (auto simp: read_exchange_def write_frame_def split: if_splits option.splits sum.splits
      dest: parse_response_None)

lemma read_exchange_Some:
  "read_exchange ar e flt s = (Some p, s1) \<Longrightarrow> fst s1 = (fst s)\<lparr>pressurePOSLE := p\<rparr>"
  by (cases s) (auto simp: read_exchange_def write_frame_def split: if_splits option.splits sum.splits
      dest: parse_response_Some)

lemma read_7019_2_pressure:
  "pressurePOSLE (fst (snd (read_7019_2 ar e flt s))) =
     (case fst (read_7019_2 ar e flt s) of None \<Rightarrow> pressurePOSLE (fst s) | Some p \<Rightarrow> p)"
proof (cases "ensure_open e s")
  case (fields b c w)
  have k: "pressurePOSLE c = pressurePOSLE (fst s)"
    using ensure_open_keeps(1) [of e s] fields by simp
  show ?thesis
  proof (cases b)
    case False
    with fields k show ?thesis by (simp add: read_7019_2_def)
  next
    case True
    obtain r c1 w1 where rx: "read_exchange ar e flt (c, w) = (r, c1, w1)"
      by (cases "read_exchange ar e flt (c, w)") auto
    have "pressurePOSLE c1 = (case r of None \<Rightarrow> pressurePOSLE c | Some p \<Rightarrow> p)"
      using rx read_exchange_None [of ar e flt "(c, w)" "(c1, w1)"]
        read_exchange_Some [of ar e flt "(c, w)" _ "(c1, w1)"]
      by (cases r) auto
    with True fields rx k show ?thesis
      by (simp add: read_7019_2_def split: option.splits)
  qed
qed

lemmas double_eval =
  double_arith_def rnd_def nearest_double_def exponent_def pow2_def halvings.simps
  doublings.simps signed_inf_def py_round2_def round_half_even_def Let_def

lemma rnd_zero [simp]: "rnd 0 = Fin 0"
  by (simp add: rnd_def nearest_double_def pow2_def)

lemma lit_double_zero [simp]: "lit double_arith 0 = Fin 0"
  by (simp add: double_arith_def)

lemmas read_eval =
  read_7019_2_def ensure_open_def not_open_def connect_def read_exchange_def write_frame_def
  parse_response_def strip_def split_def is_space_def steady_def init_controller_def
  init_world_def py_getitem_def dec_float_def dec_value_def unsigned_dec_def digit_val_def
  pressure_norm_def double_eval

subsection \<open>The published pressure after a failed read\<close>

text \<open>
  Claim C10.  A call of \<^verbatim>\<open>read_7019_2\<close> that returns \<^verbatim>\<open>None\<close>, for whatever reason
  (no connection, an exception in the write or the read, an empty response, too few
  tokens, a token that is not a number, a zero calibration span), leaves the attribute
  \<^verbatim>\<open>pressurePOSLE\<close> as it was; a call that returns a pressure has stored that very
  pressure in it.  So the attribute always holds the result of the latest successful
  read.
\<close>

theorem read_failure_keeps_pressurePOSLE:
  "(fst (read_7019_2 ar e flt s) = None \<longrightarrow>
      pressurePOSLE (fst (snd (read_7019_2 ar e flt s))) = pressurePOSLE (fst s)) \<and>
   (\<forall>p. fst (read_7019_2 ar e flt s) = Some p \<longrightarrow>
      pressurePOSLE (fst (snd (read_7019_2 ar e flt s))) = p)"
  by (simp add: read_7019_2_pressure)

theorem read_failure_keeps_pressurePOSLE_witness:
  "fst (read_7019_2 double_arith (steady ''0 0 0 0 0 x'') dec_float
          ((init_controller double_arith)\<lparr>pressurePOSLE := Fin 3\<rparr>, init_world)) = None \<and>
   pressurePOSLE (fst (snd (read_7019_2 double_arith (steady ''0 0 0 0 0 x'') dec_float
          ((init_controller double_arith)\<lparr>pressurePOSLE := Fin 3\<rparr>, init_world)))) = Fin 3 \<and>
   fst (read_7019_2 double_arith (steady ''0 0 0 0 0 11.614'') dec_float
          ((init_controller double_arith)\<lparr>pressurePOSLE := Fin 1\<rparr>, init_world)) = Some (Fin 3) \<and>
   pressurePOSLE (fst (snd (read_7019_2 double_arith (steady ''0 0 0 0 0 11.614'') dec_float
          ((init_controller double_arith)\<lparr>pressurePOSLE := Fin 1\<rparr>, init_world)))) = Fin 3"
proof -
  have a: "fst (read_7019_2 double_arith (steady ''0 0 0 0 0 x'') dec_float
          ((init_controller double_arith)\<lparr>pressurePOSLE := Fin 3\<rparr>, init_world)) = None"
    by (simp add: read_eval)
  have b: "fst (read_7019_2 double_arith (steady ''0 0 0 0 0 11.614'') dec_float
          ((init_controller double_arith)\<lparr>pressurePOSLE := Fin 1\<rparr>, init_world)) = Some (Fin 3)"
    by (simp add: read_eval)
  show ?thesis
    using a b
      read_failure_keeps_pressurePOSLE [of double_arith "steady ''0 0 0 0 0 x''" dec_float
        "((init_controller double_arith)\<lparr>pressurePOSLE := Fin 3\<rparr>, init_world)"]
      read_failure_keeps_pressurePOSLE [of double_arith "steady ''0 0 0 0 0 11.614''" dec_float
        "((init_controller double_arith)\<lparr>pressurePOSLE := Fin 1\<rparr>, init_world)"]
    by (simp add: init_controller_def)
qed

subsection \<open>The outcome of a read\<close>

lemma ensure_open_config [simp]:
  "pressureChanel (fst (snd (ensure_open e s))) = pressureChanel (fst s)"
  "minMA (fst (snd (ensure_open e s))) = minMA (fst s)"
  "maxMA (fst (snd (ensure_open e s))) = maxMA (fst s)"
  "minP (fst (snd (ensure_open e s))) = minP (fst s)"
  "maxP (fst (snd (ensure_open e s))) = maxP (fst s)"
  by (simp_all add: ensure_open_def connect_def split: prod.splits option.splits)

lemma ensure_open_refuses:
  "not_open (fst s) \<Longrightarrow> opened (e (tick (snd s))) = None \<Longrightarrow> \<not> fst (ensure_open e s)"
  by (cases s) (simp add: ensure_open_def connect_def)

lemma read_exchange_fails:
  assumes "write_raises (e (tick w)) \<or> response (e (tick w)) = None \<or>
     (\<exists>line. response (e (tick w)) = Some line \<and>
        (strip line = [] \<or> int (length (split (strip line))) < pressureChanel c + 1 \<or>
         (\<exists>tok. py_getitem (split (strip line)) (pressureChanel c) = Inr tok \<and> flt tok = None)))"
  shows "fst (read_exchange ar e flt (c, w)) = None"
  using assms
  by (auto simp: read_exchange_def write_frame_def parse_response_def Let_def
      split: option.splits sum.splits)


lemma read_7019_2_result:
  "fst (read_7019_2 ar e flt s) =
     (if fst (ensure_open e s) then fst (read_exchange ar e flt (snd (ensure_open e s))) else None)"
  by (cases "ensure_open e s"; cases "read_exchange ar e flt (snd (ensure_open e s))")
    (auto simp: read_7019_2_def)




subsection \<open>Failed reads are soft\<close>

text \<open>
  Claim C6.  \<^verbatim>\<open>read_7019_2\<close> returns \<^verbatim>\<open>None\<close>, and no exception leaves it, when the
  port cannot be opened, when the write or the read raises, when the line is empty after
  stripping, when it has fewer tokens than \<^verbatim>\<open>pressureChanel + 1\<close>, and when the token at
  that index is not a number.
\<close>

theorem read_soft_fail:
  assumes "(not_open c \<and> opened (e (tick w)) = None) \<or> write_raises (e (tick w)) \<or>
     response (e (tick w)) = None \<or>
     (\<exists>line. response (e (tick w)) = Some line \<and>
        (strip line = [] \<or> int (length (split (strip line))) < pressureChanel c + 1 \<or>
         (\<exists>tok. py_getitem (split (strip line)) (pressureChanel c) = Inr tok \<and> flt tok = None)))"
  shows "fst (read_7019_2 ar e flt (c, w)) = None"
proof (cases "fst (ensure_open e (c, w))")
  case False
  then show ?thesis by (simp add: read_7019_2_result)
next
  case True
  obtain c1 w1 where s1: "snd (ensure_open e (c, w)) = (c1, w1)"
    by (cases "snd (ensure_open e (c, w))") auto
  have same: "pressureChanel c1 = pressureChanel c" "tick w1 = tick w"
    using ensure_open_config(1) [of e "(c, w)"] ensure_open_keeps(6) [of e "(c, w)"] s1 by simp_all
  from True ensure_open_refuses [of "(c, w)" e]
  have "\<not> (not_open c \<and> opened (e (tick w)) = None)" by auto
  with assms same have "write_raises (e (tick w1)) \<or> response (e (tick w1)) = None \<or>
     (\<exists>line. response (e (tick w1)) = Some line \<and>
        (strip line = [] \<or> int (length (split (strip line))) < pressureChanel c1 + 1 \<or>
         (\<exists>tok. py_getitem (split (strip line)) (pressureChanel c1) = Inr tok \<and> flt tok = None)))"
    by simp
  then have "fst (read_exchange ar e flt (c1, w1)) = None"
    by (rule read_exchange_fails)
  with True s1 show ?thesis by (simp add: read_7019_2_result)
qed

theorem read_soft_fail_witness:
  "strip '''' = [] \<and>
   fst (read_7019_2 double_arith (steady '''') dec_float ((init_controller double_arith), init_world)) = None \<and>
   int (length (split (strip ''1 2 3''))) < pressureChanel (init_controller double_arith) + 1 \<and>
   fst (read_7019_2 double_arith (steady ''1 2 3'') dec_float ((init_controller double_arith), init_world)) = None \<and>
   py_getitem (split (strip ''0 0 0 0 0 x'')) (pressureChanel (init_controller double_arith)) = Inr ''x'' \<and>
   dec_float ''x'' = None \<and>
   fst (read_7019_2 double_arith (steady ''0 0 0 0 0 x'') dec_float ((init_controller double_arith), init_world)) = None \<and>
   not_open (init_controller double_arith) \<and> opened (unplugged (tick init_world)) = None \<and>
   fst (read_7019_2 double_arith unplugged dec_float ((init_controller double_arith), init_world)) = None"
proof -
  have a: "response (steady '''' (tick init_world)) = Some ''''" "strip '''' = []"
    by (simp_all add: steady_def strip_def)
  have b: "response (steady ''1 2 3'' (tick init_world)) = Some ''1 2 3''"
    "int (length (split (strip ''1 2 3''))) < pressureChanel (init_controller double_arith) + 1"
    by (simp_all add: read_eval)
  have c: "response (steady ''0 0 0 0 0 x'' (tick init_world)) = Some ''0 0 0 0 0 x''"
    "py_getitem (split (strip ''0 0 0 0 0 x'')) (pressureChanel (init_controller double_arith)) = Inr ''x''"
    "dec_float ''x'' = None"
    by (simp_all add: read_eval)
  have d: "not_open (init_controller double_arith)" "opened (unplugged (tick init_world)) = None"
    by (simp_all add: not_open_def init_controller_def unplugged_def)
  have "fst (read_7019_2 double_arith (steady '''') dec_float ((init_controller double_arith), init_world)) = None"
    using a by (intro read_soft_fail) blast
  moreover have "fst (read_7019_2 double_arith (steady ''1 2 3'') dec_float ((init_controller double_arith), init_world)) = None"
    using b by (intro read_soft_fail) blast
  moreover have "fst (read_7019_2 double_arith (steady ''0 0 0 0 0 x'') dec_float ((init_controller double_arith), init_world)) = None"
    using c by (intro read_soft_fail) blast
  moreover have "fst (read_7019_2 double_arith unplugged dec_float ((init_controller double_arith), init_world)) = None"
    using d by (intro read_soft_fail) blast
  ultimately show ?thesis using a b c d by simp
qed

subsection \<open>The calibration formula\<close>



text \<open>The rounding follows the double and not the decimal: for the token 3.89877 the
  formula is 0.015 over the real numbers, a tie that goes to 0.02, while the computed
  double lies just below 0.015 and the pressure returned is 0.01.\<close>

lemma decimal_tie_follows_the_double:
  "fst (read_7019_2 double_arith (steady ''0 0 0 0 0 3.89877'') dec_float
          (init_controller double_arith, init_world)) = Some (rnd (1 / 100))"
  "fst (read_7019_2 real_arith (steady ''0 0 0 0 0 3.89877'') dec_value
          (init_controller real_arith, init_world)) = Some (2 / 100)"
  by (simp_all add: read_eval real_arith_def)

subsection \<open>Hexadecimal fields\<close>

lemma hex_digit_in: "d < 16 \<Longrightarrow> hex_digit d \<in> set ''0123456789ABCDEF''"
  unfolding hex_digit_def by (rule nth_mem) simp

lemma to_hex_chars: "set (to_hex n) \<subseteq> set ''0123456789ABCDEF''"
proof (induction n rule: to_hex.induct)
  case (1 n)
  show ?case
  proof (cases "n < 16")
    case True
    then show ?thesis using hex_digit_in [of n] by (subst to_hex.simps) simp
  next
    case False
    have "n mod 16 < 16" by simp
    from hex_digit_in [OF this] 1 [OF False] False show ?thesis
      by (subst to_hex.simps) simp
  qed
qed

lemma to_hex_length: "0 < k \<Longrightarrow> n < 16 ^ k \<Longrightarrow> length (to_hex n) \<le> k"
proof (induction n arbitrary: k rule: to_hex.induct)
  case (1 n)
  show ?case
  proof (cases "n < 16")
    case True
    with 1(2) show ?thesis by (subst to_hex.simps) simp
  next
    case False
    obtain j where k: "k = Suc j" using 1(2) by (cases k) auto
    with False 1(3) have "0 < j" by (cases j) auto
    moreover from k 1(3) have "n div 16 < 16 ^ j"
      by (simp add: less_mult_imp_div_less mult.commute)
    ultimately have "length (to_hex (n div 16)) \<le> j" using 1(1) [OF False] by blast
    with k False show ?thesis by (subst to_hex.simps) simp
  qed
qed

lemma format_X_in_range:
  assumes "0 \<le> n" "n < 16 ^ w" "0 < w"
  shows "length (format_X w n) = w" "set (format_X w n) \<subseteq> set ''0123456789ABCDEF''"
proof -
  have "nat n < 16 ^ w" using assms by (simp add: nat_less_iff)
  from to_hex_length [OF assms(3) this] assms(1)
  show "length (format_X w n) = w" by (simp add: format_X_def zfill_def)
  from to_hex_chars [of "nat n"] assms(1)
  show "set (format_X w n) \<subseteq> set ''0123456789ABCDEF''"
    by (auto simp: format_X_def zfill_def)
qed

lemmas frame_eval = frame_705X_def format_X_def zfill_def to_hex.simps hex_digit_def

lemma send_705X_XX_writes:
  assumes "\<not> not_open c" "\<not> write_raises (e (tick w))"
  shows "send_705X_XX e m a ch v (c, w) =
           (True, c, w\<lparr>wire := wire w @ [frame_705X m a ch v], tick := Suc (tick w)\<rparr>)"
  using assms
  by (simp add: send_705X_XX_def send_command_def ensure_open_def write_frame_def next_exchange_def)

subsection \<open>The command frame\<close>

text \<open>
  Claim C4, as the code has it.  For a module number that fits four hexadecimal digits
  and an address, a channel and a value between 0 and 255, the frame of
  \<^verbatim>\<open>send_705X_XX\<close> has exactly 11 characters: 4+2+2+2 upper-case hexadecimal digits,
  padded with zeros, and a carriage return.  No input is rejected: whatever the four
  numbers are, with an open port and a write that does not raise, the frame is written
  and the method returns \<^verbatim>\<open>True\<close>.
\<close>

theorem frame_705X_eleven_characters:
  "(0 \<le> m \<and> m < 65536 \<and> 0 \<le> a \<and> a < 256 \<and> 0 \<le> ch \<and> ch < 256 \<and> 0 \<le> v \<and> v < 256 \<longrightarrow>
      length (frame_705X m a ch v) = 11 \<and> last (frame_705X m a ch v) = CR \<and>
      set (butlast (frame_705X m a ch v)) \<subseteq> set ''0123456789ABCDEF'') \<and>
   (\<not> not_open c \<and> \<not> write_raises (e (tick w)) \<longrightarrow>
      send_705X_XX e m a ch v (c, w) =
        (True, c, w\<lparr>wire := wire w @ [frame_705X m a ch v], tick := Suc (tick w)\<rparr>))"
proof (intro conjI impI)
  assume r: "0 \<le> m \<and> m < 65536 \<and> 0 \<le> a \<and> a < 256 \<and> 0 \<le> ch \<and> ch < 256 \<and> 0 \<le> v \<and> v < 256"
  then have fm: "length (format_X 4 m) = 4" "set (format_X 4 m) \<subseteq> set ''0123456789ABCDEF''"
    using format_X_in_range [of m 4] by simp_all
  from r have fa: "length (format_X 2 a) = 2" "set (format_X 2 a) \<subseteq> set ''0123456789ABCDEF''"
    using format_X_in_range [of a 2] by simp_all
  from r have fc: "length (format_X 2 ch) = 2" "set (format_X 2 ch) \<subseteq> set ''0123456789ABCDEF''"
    using format_X_in_range [of ch 2] by simp_all
  from r have fv: "length (format_X 2 v) = 2" "set (format_X 2 v) \<subseteq> set ''0123456789ABCDEF''"
    using format_X_in_range [of v 2] by simp_all
  show "length (frame_705X m a ch v) = 11"
    using fm(1) fa(1) fc(1) fv(1) by (simp add: frame_705X_def)
  show "last (frame_705X m a ch v) = CR"
    by (simp add: frame_705X_def)
  have "butlast (frame_705X m a ch v) = format_X 4 m @ format_X 2 a @ format_X 2 ch @ format_X 2 v"
    by (simp add: frame_705X_def butlast_append)
  with fm(2) fa(2) fc(2) fv(2)
  show "set (butlast (frame_705X m a ch v)) \<subseteq> set ''0123456789ABCDEF''"
    by simp
next
  assume "\<not> not_open c \<and> \<not> write_raises (e (tick w))"
  then show "send_705X_XX e m a ch v (c, w) =
        (True, c, w\<lparr>wire := wire w @ [frame_705X m a ch v], tick := Suc (tick w)\<rparr>)"
    by (simp add: send_705X_XX_writes)
qed

theorem frame_705X_eleven_characters_witness:
  "((0::int) \<le> 7050 \<and> (7050::int) < 65536 \<and> (0::int) \<le> 1 \<and> (1::int) < 256 \<and>
    (0::int) \<le> 5 \<and> (5::int) < 256) \<and>
   length (frame_705X 7050 1 5 1) = 11 \<and> last (frame_705X 7050 1 5 1) = CR \<and>
   set (butlast (frame_705X 7050 1 5 1)) \<subseteq> set ''0123456789ABCDEF'' \<and>
   \<not> not_open ((init_controller double_arith)\<lparr>ser := Some \<lparr>sid = 1, is_open = True\<rparr>\<rparr>) \<and>
   \<not> write_raises (steady [] (tick init_world)) \<and>
   send_705X_XX (steady []) 7050 1 5 256
       ((init_controller double_arith)\<lparr>ser := Some \<lparr>sid = 1, is_open = True\<rparr>\<rparr>, init_world) =
     (True, (init_controller double_arith)\<lparr>ser := Some \<lparr>sid = 1, is_open = True\<rparr>\<rparr>,
      init_world\<lparr>wire := wire init_world @ [frame_705X 7050 1 5 256],
                 tick := Suc (tick init_world)\<rparr>)"
proof -
  have o: "\<not> not_open ((init_controller double_arith)\<lparr>ser := Some \<lparr>sid = 1, is_open = True\<rparr>\<rparr>)"
    "\<not> write_raises (steady [] (tick init_world))"
    by (simp_all add: not_open_def steady_def)
  show ?thesis
    using o
      frame_705X_eleven_characters [of 7050 1 5 1 "init_controller double_arith" "steady []" init_world]
      frame_705X_eleven_characters [of 7050 1 5 256
        "(init_controller double_arith)\<lparr>ser := Some \<lparr>sid = 1, is_open = True\<rparr>\<rparr>" "steady []" init_world]
    by simp
qed

text \<open>The frame for an in-range input does not have 13 characters, and a value above 255
  or below 0 gives a frame with a wider or a signed last field.\<close>

theorem frame_705X_counterexample:
  "length (frame_705X 7050 1 5 1) \<noteq> 13 \<and>
   frame_705X 7050 1 5 256 = ''1B8A0105100'' @ [CR] \<and>
   frame_705X 7050 1 5 (- 1) = ''1B8A0105-1'' @ [CR]"
  by (simp add: frame_eval)

subsection \<open>Rounding is monotone\<close>





subsection \<open>Monotonicity of the calibration\<close>




subsection \<open>The port object across exchanges\<close>

lemma write_frame_port [simp]:
  "ser (fst (snd (write_frame e cmd s))) = ser (fst s)"
  "opens (snd (snd (write_frame e cmd s))) = opens (snd s)"
  by (cases s; simp add: write_frame_def)+

lemma read_exchange_port [simp]:
  "ser (fst (snd (read_exchange ar e flt s))) = ser (fst s)"
  "opens (snd (snd (read_exchange ar e flt s))) = opens (snd s)"
  by (cases s; auto simp: read_exchange_def write_frame_def parse_response_def Let_def
      split: option.splits sum.splits)+

lemma send_command_port:
  assumes "\<not> not_open (fst s)"
  shows "ser (fst (snd (send_command e cmd s))) = ser (fst s)"
    "opens (snd (snd (send_command e cmd s))) = opens (snd s)"
  using assms write_frame_port [of e cmd s]
  by (cases "write_frame e cmd s"; simp add: send_command_def ensure_open_def next_exchange_def)+

lemma read_7019_2_port:
  assumes "\<not> not_open (fst s)"
  shows "ser (fst (snd (read_7019_2 ar e flt s))) = ser (fst s)"
    "opens (snd (snd (read_7019_2 ar e flt s))) = opens (snd s)"
  using assms read_exchange_port [of ar e flt s]
  by (cases "read_exchange ar e flt s"; simp add: read_7019_2_def ensure_open_def next_exchange_def)+

subsection \<open>Connecting\<close>

text \<open>
  Claim C9, as the code has it.  \<^verbatim>\<open>connect\<close> does not look at the port it has: every
  call constructs a port; when the constructor succeeds the new object replaces
  \<^verbatim>\<open>self.ser\<close> and the result is \<^verbatim>\<open>True\<close>, when it raises the controller is left as it
  was and the result is \<^verbatim>\<open>False\<close>.  The guard is in the callers: with an open port,
  \<^verbatim>\<open>send_command\<close> and \<^verbatim>\<open>read_7019_2\<close> do not call \<^verbatim>\<open>connect\<close>, so they keep the
  port object and construct none.
\<close>

theorem connect_opens_a_new_port:
  "opens (snd (snd (connect e (c, w)))) = Suc (opens w) \<and>
   (\<forall>h. opened (e (tick w)) = Some h \<longrightarrow>
      fst (connect e (c, w)) \<and>
      ser (fst (snd (connect e (c, w)))) = Some \<lparr>sid = h, is_open = True\<rparr>) \<and>
   (opened (e (tick w)) = None \<longrightarrow>
      \<not> fst (connect e (c, w)) \<and> fst (snd (connect e (c, w))) = c) \<and>
   (\<not> not_open c \<longrightarrow>
      ser (fst (snd (send_command e cmd (c, w)))) = ser c \<and>
      opens (snd (snd (send_command e cmd (c, w)))) = opens w \<and>
      ser (fst (snd (read_7019_2 ar e flt (c, w)))) = ser c \<and>
      opens (snd (snd (read_7019_2 ar e flt (c, w)))) = opens w)"
  using send_command_port [of "(c, w)" e cmd] read_7019_2_port [of "(c, w)" ar e flt]
  by (auto simp: connect_def split: option.splits)

theorem connect_opens_a_new_port_witness:
  "opened (steady [] (tick init_world)) = Some 1 \<and>
   \<not> not_open ((init_controller double_arith)\<lparr>ser := Some \<lparr>sid = 7, is_open = True\<rparr>\<rparr>) \<and>
   fst (connect (steady []) ((init_controller double_arith)\<lparr>ser := Some \<lparr>sid = 7, is_open = True\<rparr>\<rparr>, init_world)) \<and>
   ser (fst (snd (connect (steady [])
        ((init_controller double_arith)\<lparr>ser := Some \<lparr>sid = 7, is_open = True\<rparr>\<rparr>, init_world)))) =
     Some \<lparr>sid = 1, is_open = True\<rparr> \<and>
   ser (fst (snd (send_command (steady []) ''1B8A010501''
        ((init_controller double_arith)\<lparr>ser := Some \<lparr>sid = 7, is_open = True\<rparr>\<rparr>, init_world)))) =
     Some \<lparr>sid = 7, is_open = True\<rparr> \<and>
   opens (snd (snd (read_7019_2 double_arith (steady []) dec_float
        ((init_controller double_arith)\<lparr>ser := Some \<lparr>sid = 7, is_open = True\<rparr>\<rparr>, init_world)))) = 0 \<and>
   opened (unplugged (tick init_world)) = None \<and>
   \<not> fst (connect unplugged ((init_controller double_arith), init_world)) \<and>
   fst (snd (connect unplugged ((init_controller double_arith), init_world))) = (init_controller double_arith)"
proof -
  have h: "opened (steady [] (tick init_world)) = Some 1"
    "\<not> not_open ((init_controller double_arith)\<lparr>ser := Some \<lparr>sid = 7, is_open = True\<rparr>\<rparr>)"
    "opened (unplugged (tick init_world)) = None"
    by (simp_all add: steady_def not_open_def unplugged_def)
  show ?thesis
    using h
      connect_opens_a_new_port [of "steady []"
        "(init_controller double_arith)\<lparr>ser := Some \<lparr>sid = 7, is_open = True\<rparr>\<rparr>" init_world
        "''1B8A010501''" double_arith dec_float]
      connect_opens_a_new_port [of unplugged "init_controller double_arith" init_world "''1B8A010501''" double_arith dec_float]
    by (simp add: init_world_def)
qed

text \<open>A call of \<^verbatim>\<open>connect\<close> with port 7 open replaces it by the port that the
  constructor gives.\<close>

theorem connect_counterexample:
  "\<not> not_open ((init_controller double_arith)\<lparr>ser := Some \<lparr>sid = 7, is_open = True\<rparr>\<rparr>) \<and>
   ser (fst (snd (connect (steady [])
        ((init_controller double_arith)\<lparr>ser := Some \<lparr>sid = 7, is_open = True\<rparr>\<rparr>, init_world)))) \<noteq>
     ser ((init_controller double_arith)\<lparr>ser := Some \<lparr>sid = 7, is_open = True\<rparr>\<rparr>) \<and>
   opens (snd (snd (connect (steady [])
        ((init_controller double_arith)\<lparr>ser := Some \<lparr>sid = 7, is_open = True\<rparr>\<rparr>, init_world)))) = 1"
  by (simp add: connect_def steady_def not_open_def init_world_def)

subsection \<open>Exchanges and the state of the test\<close>

lemma same_but_port_refl [simp]: "same_but_port c c"
  by (simp add: same_but_port_def)

lemma same_but_port_trans:
  assumes "same_but_port a b" "same_but_port b c"
  shows "same_but_port a c"
proof -
  from assms(2) have e: "c\<lparr>ser := ser b, pressurePOSLE := pressurePOSLE b\<rparr> = b"
    by (simp add: same_but_port_def)
  have "c\<lparr>ser := ser a, pressurePOSLE := pressurePOSLE a\<rparr> =
        (c\<lparr>ser := ser b, pressurePOSLE := pressurePOSLE b\<rparr>)\<lparr>ser := ser a, pressurePOSLE := pressurePOSLE a\<rparr>"
    by simp
  also have "\<dots> = b\<lparr>ser := ser a, pressurePOSLE := pressurePOSLE a\<rparr>"
    by (simp only: e)
  also have "\<dots> = a"
    using assms(1) by (simp add: same_but_port_def)
  finally show ?thesis by (simp add: same_but_port_def)
qed

lemma same_settings_refl [simp]: "same_settings c c"
  by (simp add: same_settings_def)

lemma same_settings_trans:
  assumes "same_settings a b" "same_settings b c"
  shows "same_settings a c"
proof -
  from assms(2) have e: "c\<lparr>ser := ser b, pressurePOSLE := pressurePOSLE b, stop_igra := stop_igra b,
         plus_dim_press := plus_dim_press b\<rparr> = b"
    by (simp add: same_settings_def)
  have "c\<lparr>ser := ser a, pressurePOSLE := pressurePOSLE a, stop_igra := stop_igra a,
         plus_dim_press := plus_dim_press a\<rparr> =
        (c\<lparr>ser := ser b, pressurePOSLE := pressurePOSLE b, stop_igra := stop_igra b,
         plus_dim_press := plus_dim_press b\<rparr>)\<lparr>ser := ser a, pressurePOSLE := pressurePOSLE a,
         stop_igra := stop_igra a, plus_dim_press := plus_dim_press a\<rparr>"
    by simp
  also have "\<dots> = b\<lparr>ser := ser a, pressurePOSLE := pressurePOSLE a, stop_igra := stop_igra a,
         plus_dim_press := plus_dim_press a\<rparr>"
    by (simp only: e)
  also have "\<dots> = a"
    using assms(1) by (simp add: same_settings_def)
  finally show ?thesis by (simp add: same_settings_def)
qed

lemma same_but_port_settings:
  assumes "same_but_port c c'"
  shows "same_settings c c'"
proof -
  from assms have e: "c'\<lparr>ser := ser c, pressurePOSLE := pressurePOSLE c\<rparr> = c"
    by (simp add: same_but_port_def)
  have one: "c'\<lparr>ser := ser c, pressurePOSLE := pressurePOSLE c, stop_igra := stop_igra c,
         plus_dim_press := plus_dim_press c\<rparr> =
        (c'\<lparr>ser := ser c, pressurePOSLE := pressurePOSLE c\<rparr>)\<lparr>stop_igra := stop_igra c,
         plus_dim_press := plus_dim_press c\<rparr>"
    by simp
  have two: "(c'\<lparr>ser := ser c, pressurePOSLE := pressurePOSLE c\<rparr>)\<lparr>stop_igra := stop_igra c,
         plus_dim_press := plus_dim_press c\<rparr> = c"
    by (simp only: e) simp
  from trans [OF one two] show ?thesis
    unfolding same_settings_def .
qed

lemma same_but_port_fields:
  assumes "same_but_port c c'"
  shows "stop_igra c' = stop_igra c" "plus_dim_press c' = plus_dim_press c"
proof -
  from assms have e: "c = c'\<lparr>ser := ser c, pressurePOSLE := pressurePOSLE c\<rparr>"
    by (simp add: same_but_port_def)
  show "stop_igra c' = stop_igra c" by (subst e) simp
  show "plus_dim_press c' = plus_dim_press c" by (subst e) simp
qed

lemma same_settings_fields:
  assumes "same_settings c c'"
  shows "plus_counter c' = plus_counter c" "fixed_open c' = fixed_open c"
    "pressureChanel c' = pressureChanel c" "minMA c' = minMA c" "maxMA c' = maxMA c"
    "minP c' = minP c" "maxP c' = maxP c" "plus_step c' = plus_step c"
proof -
  from assms have e: "c = c'\<lparr>ser := ser c, pressurePOSLE := pressurePOSLE c, stop_igra := stop_igra c,
         plus_dim_press := plus_dim_press c\<rparr>"
    by (simp add: same_settings_def)
  show "plus_counter c' = plus_counter c" by (subst e) simp
  show "fixed_open c' = fixed_open c" by (subst e) simp
  show "pressureChanel c' = pressureChanel c" by (subst e) simp
  show "minMA c' = minMA c" by (subst e) simp
  show "maxMA c' = maxMA c" by (subst e) simp
  show "minP c' = minP c" by (subst e) simp
  show "maxP c' = maxP c" by (subst e) simp
  show "plus_step c' = plus_step c" by (subst e) simp
qed


lemma connect_same: "same_but_port (fst s) (fst (snd (connect e s)))"
  by (cases s) (simp add: connect_def same_but_port_def split: option.splits)

lemma ensure_open_same: "same_but_port (fst s) (fst (snd (ensure_open e s)))"
  by (simp add: ensure_open_def connect_same)

lemma write_frame_keeps [simp]:
  "fst (snd (write_frame e cmd s)) = fst s"
  "tick (snd (snd (write_frame e cmd s))) = tick (snd s)"
  by (cases s; simp add: write_frame_def)+

lemma send_command_same: "same_but_port (fst s) (fst (snd (send_command e cmd s)))"
proof (cases "ensure_open e s")
  case (fields b c w)
  with ensure_open_same [of s e] have sc: "same_but_port (fst s) c" by simp
  show ?thesis
  proof (cases b)
    case False
    with fields sc show ?thesis by (simp add: send_command_def)
  next
    case True
    with fields sc write_frame_keeps(1) [of e cmd "(c, w)"] show ?thesis
      by (cases "write_frame e cmd (c, w)") (simp add: send_command_def)
  qed
qed

lemma send_command_tick: "tick (snd (snd (send_command e cmd s))) = Suc (tick (snd s))"
proof (cases "ensure_open e s")
  case (fields b c w)
  with ensure_open_keeps(6) [of e s] have t: "tick w = tick (snd s)" by simp
  show ?thesis
  proof (cases b)
    case False
    with fields t show ?thesis by (simp add: send_command_def next_exchange_def)
  next
    case True
    with fields t write_frame_keeps(2) [of e cmd "(c, w)"] show ?thesis
      by (cases "write_frame e cmd (c, w)") (simp add: send_command_def next_exchange_def)
  qed
qed

lemma send_output_same: "same_but_port (fst s) (fst (send_output e ch v s))"
  by (simp add: send_output_def send_705X_XX_def send_command_same)

lemma send_output_tick [simp]: "tick (snd (send_output e ch v s)) = Suc (tick (snd s))"
  by (simp add: send_output_def send_705X_XX_def send_command_tick)

lemma read_exchange_same: "same_but_port (fst s) (fst (snd (read_exchange ar e flt s)))"
proof (cases "read_exchange ar e flt s")
  case (fields r c w)
  show ?thesis
  proof (cases r)
    case None
    with fields read_exchange_None [of ar e flt s "(c, w)"] show ?thesis by simp
  next
    case (Some p)
    with fields read_exchange_Some [of ar e flt s p "(c, w)"] show ?thesis
      by (simp add: same_but_port_def)
  qed
qed

lemma read_exchange_tick: "tick (snd (snd (read_exchange ar e flt s))) = tick (snd s)"
  by (cases s) (auto simp: read_exchange_def write_frame_def split: option.splits sum.splits)

lemma read_7019_2_same: "same_but_port (fst s) (fst (snd (read_7019_2 ar e flt s)))"
proof (cases "ensure_open e s")
  case (fields b c w)
  with ensure_open_same [of s e] have sc: "same_but_port (fst s) c" by simp
  show ?thesis
  proof (cases b)
    case False
    with fields sc show ?thesis by (simp add: read_7019_2_def)
  next
    case True
    from read_exchange_same [of "(c, w)" ar e flt] sc
    have "same_but_port (fst s) (fst (snd (read_exchange ar e flt (c, w))))"
      by (auto intro: same_but_port_trans)
    with True fields show ?thesis
      by (cases "read_exchange ar e flt (c, w)") (simp add: read_7019_2_def)
  qed
qed

lemma read_7019_2_tick [simp]: "tick (snd (snd (read_7019_2 ar e flt s))) = Suc (tick (snd s))"
proof (cases "ensure_open e s")
  case (fields b c w)
  with ensure_open_keeps(6) [of e s] have t: "tick w = tick (snd s)" by simp
  show ?thesis
  proof (cases b)
    case False
    with fields t show ?thesis by (simp add: read_7019_2_def next_exchange_def)
  next
    case True
    with fields t read_exchange_tick [of ar e flt "(c, w)"] show ?thesis
      by (cases "read_exchange ar e flt (c, w)") (simp add: read_7019_2_def next_exchange_def)
  qed
qed

lemma gui_stop_facts [simp]:
  "snd (gui_stop stops s) = snd s"
  "plus_dim_press (fst (gui_stop stops s)) = plus_dim_press (fst s)"
  "stop_igra (fst (gui_stop stops s)) = (stop_igra (fst s) \<or> stops (tick (snd s)))"
  by (cases s; simp add: gui_stop_def)+

lemma gui_stop_settings: "same_settings (fst s) (fst (gui_stop stops s))"
  by (cases s) (simp add: gui_stop_def same_settings_def)

lemma test_output_settings: "same_settings (fst s) (fst (test_output stops e ch v s))"
  unfolding test_output_def
  by (rule same_settings_trans [OF gui_stop_settings same_but_port_settings [OF send_output_same]])

lemma test_output_facts [simp]:
  "tick (snd (test_output stops e ch v s)) = Suc (tick (snd s))"
  "plus_dim_press (fst (test_output stops e ch v s)) = plus_dim_press (fst s)"
  "stop_igra (fst (test_output stops e ch v s)) = (stop_igra (fst s) \<or> stops (tick (snd s)))"
  using same_but_port_fields [OF send_output_same, of e ch v "gui_stop stops s"]
  by (simp_all add: test_output_def)

lemma pulse_step_settings: "same_settings (fst s) (fst (pulse_step stops e s))"
  unfolding pulse_step_def
  by (rule same_settings_trans [OF test_output_settings test_output_settings])

lemma pulse_step_facts [simp]:
  "tick (snd (pulse_step stops e s)) = Suc (Suc (tick (snd s)))"
  "plus_dim_press (fst (pulse_step stops e s)) = plus_dim_press (fst s)"
  "stop_igra (fst (pulse_step stops e s)) =
     (stop_igra (fst s) \<or> stops (tick (snd s)) \<or> stops (Suc (tick (snd s))))"
  by (auto simp: pulse_step_def)

subsection \<open>One iteration and the loop\<close>

lemma py_setitem_nat:
  "py_setitem xs (int i) v = (if i < length xs then Inr (xs[i := v]) else Inl IndexError)"
  by (simp add: py_setitem_def)

lemma sample_step_result:
  "fst (sample_step ar stops e flt step s) =
     (case fst (read_7019_2 ar e flt (gui_stop stops s)) of
        None \<Rightarrow> None
      | Some p \<Rightarrow> if step < length (plus_dim_press (fst s)) then None else Some IndexError)"
proof (cases "read_7019_2 ar e flt (gui_stop stops s)")
  case (fields r c w)
  with same_but_port_fields(2) [OF read_7019_2_same, of ar e flt "gui_stop stops s"]
  have "plus_dim_press c = plus_dim_press (fst s)" by simp
  with fields show ?thesis
    by (cases r) (simp_all add: sample_step_def py_setitem_nat)
qed

lemma sample_step_samples:
  "plus_dim_press (fst (snd (sample_step ar stops e flt step s))) =
     (case fst (read_7019_2 ar e flt (gui_stop stops s)) of
        None \<Rightarrow> plus_dim_press (fst s)
      | Some p \<Rightarrow> (plus_dim_press (fst s))[step := p])"
proof (cases "read_7019_2 ar e flt (gui_stop stops s)")
  case (fields r c w)
  with same_but_port_fields(2) [OF read_7019_2_same, of ar e flt "gui_stop stops s"]
  have "plus_dim_press c = plus_dim_press (fst s)" by simp
  with fields show ?thesis
    by (cases r) (simp_all add: sample_step_def py_setitem_nat list_update_beyond)
qed

lemma sample_step_facts [simp]:
  "tick (snd (snd (sample_step ar stops e flt step s))) = Suc (tick (snd s))"
  "stop_igra (fst (snd (sample_step ar stops e flt step s))) =
     (stop_igra (fst s) \<or> stops (tick (snd s)))"
proof -
  obtain r c w where f: "read_7019_2 ar e flt (gui_stop stops s) = (r, c, w)"
    by (cases "read_7019_2 ar e flt (gui_stop stops s)") auto
  from read_7019_2_tick [of ar e flt "gui_stop stops s"] f
  have t: "tick w = Suc (tick (snd s))" by simp
  from same_but_port_fields(1) [OF read_7019_2_same, of ar e flt "gui_stop stops s"] f
  have g: "stop_igra c = (stop_igra (fst s) \<or> stops (tick (snd s)))" by simp
  show "tick (snd (snd (sample_step ar stops e flt step s))) = Suc (tick (snd s))"
    using f t by (cases r) (simp_all add: sample_step_def py_setitem_nat)
  show "stop_igra (fst (snd (sample_step ar stops e flt step s))) =
     (stop_igra (fst s) \<or> stops (tick (snd s)))"
    using f g by (cases r) (simp_all add: sample_step_def py_setitem_nat)
qed

lemma sample_step_settings: "same_settings (fst s) (fst (snd (sample_step ar stops e flt step s)))"
proof -
  obtain r c w where f: "read_7019_2 ar e flt (gui_stop stops s) = (r, c, w)"
    by (cases "read_7019_2 ar e flt (gui_stop stops s)") auto
  have "same_settings (fst s) (fst (snd (read_7019_2 ar e flt (gui_stop stops s))))"
    by (rule same_settings_trans [OF gui_stop_settings same_but_port_settings [OF read_7019_2_same]])
  with f have sc: "same_settings (fst s) c" by simp
  have up: "same_settings c (c\<lparr>plus_dim_press := xs\<rparr>)" for xs
    by (simp add: same_settings_def)
  show ?thesis
    using f sc same_settings_trans [OF sc up]
    by (cases r) (simp_all add: sample_step_def py_setitem_nat)
qed

lemma forward_loop_stopped:
  "stop_igra (fst s) \<Longrightarrow> forward_loop ar stops e flt n step s = (None, s)"
  by (cases n) simp_all

lemma forward_loop_step:
  "\<not> stop_igra (fst s) \<Longrightarrow>
   forward_loop ar stops e flt (Suc n) step s =
     (if fst (sample_step ar stops e flt step s) = None
      then forward_loop ar stops e flt n (Suc step) (pulse_step stops e (snd (sample_step ar stops e flt step s)))
      else sample_step ar stops e flt step s)"
  by (cases "sample_step ar stops e flt step s"; cases "fst (sample_step ar stops e flt step s)") auto

declare forward_loop.simps(2) [simp del]

lemma forward_loop_settings:
  "same_settings (fst s) (fst (snd (forward_loop ar stops e flt n step s)))"
proof (induction n arbitrary: step s)
  case 0
  show ?case by simp
next
  case (Suc n)
  show ?case
  proof (cases "stop_igra (fst s)")
    case True
    then show ?thesis by (simp add: forward_loop_stopped)
  next
    case False
    let ?s1 = "snd (sample_step ar stops e flt step s)"
    have a: "same_settings (fst s) (fst ?s1)" by (rule sample_step_settings)
    have b: "same_settings (fst ?s1) (fst (pulse_step stops e ?s1))" by (rule pulse_step_settings)
    from Suc.IH [of "pulse_step stops e ?s1" "Suc step"] same_settings_trans [OF a b]
    have "same_settings (fst s) (fst (snd (forward_loop ar stops e flt n (Suc step) (pulse_step stops e ?s1))))"
      by (rule same_settings_trans [rotated])
    with False a show ?thesis by (simp add: forward_loop_step)
  qed
qed

lemma forward_loop_samples_below:
  "length (plus_dim_press (fst (snd (forward_loop ar stops e flt n step s)))) =
     length (plus_dim_press (fst s)) \<and>
   (\<forall>j<step. plus_dim_press (fst (snd (forward_loop ar stops e flt n step s))) ! j =
      plus_dim_press (fst s) ! j)"
proof (induction n arbitrary: step s)
  case 0
  show ?case by simp
next
  case (Suc n)
  show ?case
  proof (cases "stop_igra (fst s)")
    case True
    then show ?thesis by (simp add: forward_loop_stopped)
  next
    case False
    let ?s1 = "snd (sample_step ar stops e flt step s)"
    have one: "length (plus_dim_press (fst ?s1)) = length (plus_dim_press (fst s)) \<and>
        (\<forall>j<step. plus_dim_press (fst ?s1) ! j = plus_dim_press (fst s) ! j)"
      by (simp add: sample_step_samples split: option.splits)
    from Suc.IH [of "Suc step" "pulse_step stops e ?s1"] one
    have "length (plus_dim_press (fst (snd (forward_loop ar stops e flt n (Suc step) (pulse_step stops e ?s1))))) =
        length (plus_dim_press (fst s)) \<and>
      (\<forall>j<step. plus_dim_press (fst (snd (forward_loop ar stops e flt n (Suc step) (pulse_step stops e ?s1)))) ! j =
        plus_dim_press (fst s) ! j)"
      by simp
    with False one show ?thesis by (simp add: forward_loop_step)
  qed
qed

lemma forward_loop_raises:
  "fst (forward_loop ar stops e flt n step s) = Some x \<Longrightarrow> x = IndexError"
proof (induction n arbitrary: step s)
  case 0
  then show ?case by simp
next
  case (Suc n)
  show ?case
  proof (cases "stop_igra (fst s)")
    case True
    with Suc.prems show ?thesis by (simp add: forward_loop_stopped)
  next
    case False
    show ?thesis
    proof (cases "fst (sample_step ar stops e flt step s)")
      case None
      with False Suc.prems Suc.IH show ?thesis by (simp add: forward_loop_step)
    next
      case (Some y)
      with False Suc.prems have "y = x" by (simp add: forward_loop_step)
      with Some show ?thesis
        by (simp add: sample_step_result split: option.splits if_splits)
    qed
  qed
qed

lemma cancel_one_iteration:
  assumes "\<not> stop_igra c"
    and "stops (tick w) \<or> stops (Suc (tick w)) \<or> stops (Suc (Suc (tick w)))"
  shows "forward_loop ar stops e flt (Suc n) k (c, w) =
           (if fst (sample_step ar stops e flt k (c, w)) = None
            then (None, pulse_step stops e (snd (sample_step ar stops e flt k (c, w))))
            else sample_step ar stops e flt k (c, w))"
proof -
  let ?s1 = "snd (sample_step ar stops e flt k (c, w))"
  from assms(2) have "stop_igra (fst (pulse_step stops e ?s1))" by auto
  then have "forward_loop ar stops e flt n (Suc k) (pulse_step stops e ?s1) =
               (None, pulse_step stops e ?s1)"
    by (rule forward_loop_stopped)
  with assms(1) show ?thesis by (simp add: forward_loop_step)
qed

lemma ensure_open_steady: "fst (ensure_open (steady line) s)"
  by (cases s) (simp add: ensure_open_def connect_def steady_def)

lemma steady_read_good:
  assumes "same_settings (init_controller double_arith) (fst s)"
  shows "fst (read_7019_2 double_arith (steady ''0 0 0 0 0 11.614'') dec_float s) = Some (Fin 3)"
proof -
  let ?e = "steady ''0 0 0 0 0 11.614''"
  obtain c1 w1 where s1: "snd (ensure_open ?e s) = (c1, w1)"
    by (cases "snd (ensure_open ?e s)") auto
  have "same_settings (fst s) c1"
    using same_but_port_settings [OF ensure_open_same, of s ?e] s1 by simp
  from same_settings_fields [OF same_settings_trans [OF assms this]]
  have f: "pressureChanel c1 = 5" "minMA c1 = lit double_arith (386 / 100)"
    "maxMA c1 = lit double_arith (19368 / 1000)"
    "minP c1 = lit double_arith 0" "maxP c1 = lit double_arith 6"
    by (simp_all add: init_controller_def)
  have "fst (read_exchange double_arith ?e dec_float (c1, w1)) = Some (Fin 3)"
    by (simp add: f read_exchange_def write_frame_def parse_response_def strip_def split_def
        is_space_def steady_def py_getitem_def dec_float_def dec_value_def unsigned_dec_def
        digit_val_def pressure_norm_def double_eval)
  with s1 ensure_open_steady [of "''0 0 0 0 0 11.614''" s] show ?thesis
    by (simp add: read_7019_2_result)
qed

subsection \<open>Cancellation\<close>

text \<open>
  Claim C5, as the code has it.  The stop flag is read at the top of every iteration: a
  flag that is set there makes the loop exit at once, without any exchange.  When the
  flag is clear at the top of iteration \<open>k\<close> and STOP is pressed during that iteration
  (before its read, before the first or before the second frame of its pulse), the loop
  runs the rest of iteration \<open>k\<close> and nothing more: at most three exchanges follow the
  check, and when the store does not raise, the whole pulse is written and the loop exits
  with the flag set.  The length of the samples and every sample other than
  \<^verbatim>\<open>plus_dim_press[k]\<close> are as they were at the top of the iteration; when STOP comes
  after the read of iteration \<open>k\<close>, the samples are those that the read and the store of
  iteration \<open>k\<close> left.  A press that comes before that read does not keep
  \<^verbatim>\<open>plus_dim_press[k]\<close> from being written.
\<close>

theorem cancel_within_iteration:
  assumes "\<not> stop_igra c"
    and "stops (tick w) \<or> stops (Suc (tick w)) \<or> stops (Suc (Suc (tick w)))"
  shows "forward_loop ar stops e flt (Suc n) k (c, w) =
           (if fst (sample_step ar stops e flt k (c, w)) = None
            then (None, pulse_step stops e (snd (sample_step ar stops e flt k (c, w))))
            else sample_step ar stops e flt k (c, w)) \<and>
         tick (snd (snd (forward_loop ar stops e flt (Suc n) k (c, w)))) \<le> tick w + 3 \<and>
         (fst (forward_loop ar stops e flt (Suc n) k (c, w)) = None \<longrightarrow>
            tick (snd (snd (forward_loop ar stops e flt (Suc n) k (c, w)))) = tick w + 3 \<and>
            stop_igra (fst (snd (forward_loop ar stops e flt (Suc n) k (c, w))))) \<and>
         length (plus_dim_press (fst (snd (forward_loop ar stops e flt (Suc n) k (c, w))))) =
            length (plus_dim_press c) \<and>
         (\<forall>j. j \<noteq> k \<longrightarrow>
            plus_dim_press (fst (snd (forward_loop ar stops e flt (Suc n) k (c, w)))) ! j =
            plus_dim_press c ! j) \<and>
         (\<not> stops (tick w) \<longrightarrow>
            plus_dim_press (fst (snd (forward_loop ar stops e flt (Suc n) k (c, w)))) =
            plus_dim_press (fst (snd (sample_step ar stops e flt k (c, w))))) \<and>
         (stop_igra c0 \<longrightarrow> forward_loop ar stops e flt m k (c0, w0) = (None, c0, w0))"
proof -
  let ?s1 = "snd (sample_step ar stops e flt k (c, w))"
  let ?r = "forward_loop ar stops e flt (Suc n) k (c, w)"
  have eq: "?r = (if fst (sample_step ar stops e flt k (c, w)) = None
            then (None, pulse_step stops e ?s1) else sample_step ar stops e flt k (c, w))"
    using assms by (rule cancel_one_iteration)
  have smp: "plus_dim_press (fst (snd ?r)) = plus_dim_press (fst ?s1)"
    by (simp add: eq)
  have t: "tick (snd (snd ?r)) \<le> tick w + 3"
    by (simp add: eq)
  have t3: "fst ?r = None \<longrightarrow> tick (snd (snd ?r)) = tick w + 3 \<and> stop_igra (fst (snd ?r))"
    using assms(2) by (auto simp: eq)
  have len: "length (plus_dim_press (fst (snd ?r))) = length (plus_dim_press c)"
    by (simp add: smp sample_step_samples split: option.splits)
  have oth: "\<forall>j. j \<noteq> k \<longrightarrow> plus_dim_press (fst (snd ?r)) ! j = plus_dim_press c ! j"
    by (simp add: smp sample_step_samples split: option.splits)
  have top: "stop_igra c0 \<longrightarrow> forward_loop ar stops e flt m k (c0, w0) = (None, c0, w0)"
    by (simp add: forward_loop_stopped)
  from eq t t3 len oth smp top show ?thesis by blast
qed


theorem cancel_within_iteration_witness:
  "\<not> stop_igra (init_controller double_arith) \<and> stop_before 1 (Suc (tick init_world)) \<and>
   \<not> stop_before 1 (tick init_world) \<and>
   tick (snd (snd (forward_loop double_arith (stop_before 1) (steady ''0 0 0 0 0 11.614'') dec_float
        (Suc 79) 0 ((init_controller double_arith), init_world)))) \<le> tick init_world + 3 \<and>
   length (plus_dim_press (fst (snd (forward_loop double_arith (stop_before 1) (steady ''0 0 0 0 0 11.614'')
        dec_float (Suc 79) 0 ((init_controller double_arith), init_world))))) = length (plus_dim_press (init_controller double_arith)) \<and>
   plus_dim_press (fst (snd (forward_loop double_arith (stop_before 1) (steady ''0 0 0 0 0 11.614'')
        dec_float (Suc 79) 0 ((init_controller double_arith), init_world)))) =
     plus_dim_press (fst (snd (sample_step double_arith (stop_before 1) (steady ''0 0 0 0 0 11.614'')
        dec_float 0 ((init_controller double_arith), init_world)))) \<and>
   forward_loop double_arith (stop_before 1) (steady ''0 0 0 0 0 11.614'') dec_float 80 0
        ((init_controller double_arith)\<lparr>stop_igra := True\<rparr>, init_world) =
     (None, (init_controller double_arith)\<lparr>stop_igra := True\<rparr>, init_world)"
proof -
  have h1: "\<not> stop_igra (init_controller double_arith)"
    by (simp add: init_controller_def)
  have h2: "stop_before 1 (tick init_world) \<or> stop_before 1 (Suc (tick init_world)) \<or>
     stop_before 1 (Suc (Suc (tick init_world)))"
    by (simp add: stop_before_def init_world_def)
  have h3: "stop_before 1 (Suc (tick init_world))" "\<not> stop_before 1 (tick init_world)"
    "stop_igra ((init_controller double_arith)\<lparr>stop_igra := True\<rparr>)"
    by (simp_all add: stop_before_def init_world_def)
  note w = cancel_within_iteration [OF h1 h2, of double_arith "steady ''0 0 0 0 0 11.614''" dec_float 79 0
      "(init_controller double_arith)\<lparr>stop_igra := True\<rparr>" 80 init_world]
  note r1 = w [THEN conjunct2]
  note r2 = r1 [THEN conjunct2]
  note r3 = r2 [THEN conjunct2]
  note r4 = r3 [THEN conjunct2]
  note r5 = r4 [THEN conjunct2]
  show ?thesis
    using h1 h3(1) h3(2) r1 [THEN conjunct1] r3 [THEN conjunct1]
      mp [OF r5 [THEN conjunct1] h3(2)] mp [OF r5 [THEN conjunct2] h3(3)]
    by blast
qed

text \<open>STOP pressed in iteration 0, before its read: the sample of iteration 0 is stored
  after the press.\<close>

theorem cancel_counterexample:
  "\<not> stop_igra (init_controller double_arith) \<and> stop_before 0 (tick init_world) \<and>
   plus_dim_press (init_controller double_arith) ! 0 = Fin 0 \<and>
   plus_dim_press (fst (snd (forward_loop double_arith (stop_before 0) (steady ''0 0 0 0 0 11.614'') dec_float
        (Suc 79) 0 ((init_controller double_arith), init_world)))) ! 0 = Fin 3"
proof -
  let ?e = "steady ''0 0 0 0 0 11.614''"
  let ?s = "((init_controller double_arith), init_world)"
  have h: "\<not> stop_igra (init_controller double_arith)" "stop_before 0 (tick init_world)"
    by (simp_all add: init_controller_def stop_before_def init_world_def)
  have "same_settings (init_controller double_arith) (fst (gui_stop (stop_before 0) ?s))"
    using gui_stop_settings [of ?s] by simp
  then have rd: "fst (read_7019_2 double_arith ?e dec_float (gui_stop (stop_before 0) ?s)) = Some (Fin 3)"
    by (rule steady_read_good)
  have one: "forward_loop double_arith (stop_before 0) ?e dec_float (Suc 79) 0 ?s =
           (if fst (sample_step double_arith (stop_before 0) ?e dec_float 0 ?s) = None
            then (None, pulse_step (stop_before 0) ?e (snd (sample_step double_arith (stop_before 0) ?e dec_float 0 ?s)))
            else sample_step double_arith (stop_before 0) ?e dec_float 0 ?s)"
    using h by (intro cancel_one_iteration) simp_all
  have "plus_dim_press (fst (snd (forward_loop double_arith (stop_before 0) ?e dec_float (Suc 79) 0 ?s))) =
          plus_dim_press (fst (snd (sample_step double_arith (stop_before 0) ?e dec_float 0 ?s)))"
    by (simp only: one) simp
  also have "\<dots> = (plus_dim_press (init_controller double_arith))[0 := Fin 3]"
    by (simp only: sample_step_samples rd) simp
  finally have "plus_dim_press (fst (snd (forward_loop double_arith (stop_before 0) ?e dec_float (Suc 79) 0 ?s))) ! 0 = Fin 3"
    by (simp add: init_controller_def)
  moreover have "plus_dim_press (init_controller double_arith) ! 0 = Fin 0"
    by (simp add: init_controller_def double_eval)
  ultimately show ?thesis using h by simp
qed

subsection \<open>The run around the loop\<close>

lemma with_controller_facts [simp]:
  "controller (fst (with_controller m s)) = fst (m (controller (fst s), snd s))"
  "snd (with_controller m s) = snd (m (controller (fst s), snd s))"
  by (cases s; cases "m (controller (fst s), snd s)"; simp add: with_controller_def)+

lemma baseline_settings: "same_settings (fst s) (fst (baseline stops e s))"
  unfolding baseline_def
  by (intro same_settings_trans [OF _ test_output_settings] test_output_settings)

lemma baseline_facts [simp]:
  "tick (snd (baseline stops e s)) = tick (snd s) + 6"
  "plus_dim_press (fst (baseline stops e s)) = plus_dim_press (fst s)"
  by (simp_all add: baseline_def)

lemma baseline_never [simp]:
  "stop_igra (fst (baseline never e s)) = stop_igra (fst s)"
  by (simp add: baseline_def never_def)

lemma toggle_same:
  "same_but_port (controller (fst s)) (controller (fst (on_pump_toggle e s)))"
  "same_but_port (controller (fst s)) (controller (fst (on_to_forward e s)))"
  "same_but_port (controller (fst s)) (controller (fst (on_from_forward e s)))"
  using send_output_same [of "(controller (fst s), snd s)"]
  by (simp_all add: on_pump_toggle_def on_to_forward_def on_from_forward_def set_button_def)

lemma toggle_tick [simp]:
  "tick (snd (on_pump_toggle e s)) = Suc (tick (snd s))"
  "tick (snd (on_to_forward e s)) = Suc (tick (snd s))"
  "tick (snd (on_from_forward e s)) = Suc (tick (snd s))"
  by (simp_all add: on_pump_toggle_def on_to_forward_def on_from_forward_def set_button_def)

lemma activate_same: "same_but_port (controller (fst s)) (controller (fst (activate e s)))"
  unfolding activate_def
  by (intro same_but_port_trans [OF _ toggle_same(3)] same_but_port_trans [OF _ toggle_same(2)]
      toggle_same(1))

lemma activate_tick [simp]: "tick (snd (activate e s)) = tick (snd s) + 3"
  by (simp add: activate_def)

lemma prepare_settings:
  "same_settings (controller (fst s)) (controller (fst (prepare stops e s)))"
proof -
  have a: "same_settings (controller (fst s))
             (controller (fst (with_controller (baseline stops e) s)))"
    using baseline_settings [of "(controller (fst s), snd s)"] by simp
  show ?thesis
    unfolding prepare_def
    by (rule same_settings_trans [OF a same_but_port_settings [OF activate_same]])
qed

lemma prepare_facts [simp]:
  "tick (snd (prepare stops e s)) = tick (snd s) + 9"
  "plus_dim_press (controller (fst (prepare stops e s))) = plus_dim_press (controller (fst s))"
  "stop_igra (controller (fst (prepare never e s))) = stop_igra (controller (fst s))"
  using same_but_port_fields [OF activate_same, of e "with_controller (baseline stops e) s"]
    same_but_port_fields [OF activate_same, of e "with_controller (baseline never e) s"]
  by (simp_all add: prepare_def)

lemma stop_outputs_settings: "same_settings (fst s) (fst (stop_outputs e s))"
proof -
  have a: "same_settings (fst s) (fst (raise_stop s))"
    by (simp add: raise_stop_def same_settings_def)
  note b = same_but_port_settings [OF send_output_same]
  show ?thesis
    unfolding stop_outputs_def
    by (intro same_settings_trans [OF _ b] a)
qed

lemma stop_outputs_samples [simp]:
  "plus_dim_press (fst (stop_outputs e s)) = plus_dim_press (fst s)"
proof -
  have k: "plus_dim_press (fst (send_output e ch v t)) = plus_dim_press (fst t)" for ch v t
    by (rule same_but_port_fields(2) [OF send_output_same])
  show ?thesis by (simp add: stop_outputs_def k raise_stop_def)
qed

lemma on_stop_controller:
  "controller (fst (on_stop e s)) = fst (stop_outputs e (controller (fst s), snd s))"
  by (simp add: on_stop_def set_button_def reset_buttons_def)

lemma analyse_no_counter: "plus_counter c = 0 \<Longrightarrow> analyse ar c = (Some ValueError, c)"
  by (simp add: analyse_def py_slice_to_def)

lemma on_stop_running [simp]: "is_test_running (fst (on_stop e s)) = is_test_running (fst s)"
  by (cases s; cases "stop_outputs e (controller (fst s), snd s)")
    (simp add: on_stop_def set_button_def reset_buttons_def with_controller_def)

lemma forward_test_result:
  assumes "\<not> is_test_running f"
  shows "\<exists>f' w'. forward_test ar stops e flt (f, w) =
           Some (Failed (case fst (test_loop ar stops e flt (f, w)) of Some y \<Rightarrow> y | None \<Rightarrow> ValueError),
                 f', w') \<and>
         plus_dim_press (controller f') = plus_dim_press (fst (snd (test_loop ar stops e flt (f, w)))) \<and>
         fixed_open (controller f') = fixed_open (controller f) \<and> \<not> is_test_running f'"
proof -
  obtain f1 w1 where p: "prepare stops e (reset_for_test f, w) = (f1, w1)"
    by (cases "prepare stops e (reset_for_test f, w)") auto
  obtain x c w2 where l: "forward_loop ar stops e flt (nat (plus_step (controller f1))) 0 (controller f1, w1) = (x, c, w2)"
    by (cases "forward_loop ar stops e flt (nat (plus_step (controller f1))) 0 (controller f1, w1)") auto
  have tl: "test_loop ar stops e flt (f, w) = (x, c, w2)"
    using p l by (simp add: test_loop_def)
  let ?c0 = "controller (reset_for_test f)"
  have c0: "plus_counter ?c0 = 0" "fixed_open ?c0 = fixed_open (controller f)"
    by (simp_all add: reset_for_test_def)
  have s1: "same_settings ?c0 (controller f1)"
    using prepare_settings [of "(reset_for_test f, w)" stops e] p by simp
  have s2: "same_settings (controller f1) c"
    using forward_loop_settings [of "(controller f1, w1)" ar stops e flt
        "nat (plus_step (controller f1))" 0] l by simp
  note s3 = same_settings_trans [OF s1 s2]
  from same_settings_fields(1,2) [OF s3] c0
  have c: "plus_counter c = 0" "fixed_open c = fixed_open (controller f)" by simp_all
  have run: "run_forward_test ar stops e flt (reset_for_test f, w) =
      (Failed (case x of Some y \<Rightarrow> y | None \<Rightarrow> ValueError),
       f1\<lparr>controller := c, is_test_running := False\<rparr>, w2)"
    using p l analyse_no_counter [OF c(1)]
    by (cases x) (simp_all add: run_forward_test_def)
  let ?end = "on_stop e (f1\<lparr>controller := c, is_test_running := False\<rparr>, w2)"
  have ft: "forward_test ar stops e flt (f, w) =
      Some (Failed (case x of Some y \<Rightarrow> y | None \<Rightarrow> ValueError), fst ?end, snd ?end)"
    using assms run by (simp add: forward_test_def on_forward_test_def)
  have e1: "plus_dim_press (controller (fst ?end)) = plus_dim_press c"
    by (simp add: on_stop_controller)
  have "same_settings c (controller (fst ?end))"
    using stop_outputs_settings [of "(c, w2)" e] by (simp add: on_stop_controller)
  from same_settings_fields(2) [OF this] c(2)
  have e2: "fixed_open (controller (fst ?end)) = fixed_open (controller f)" by simp
  have e3: "\<not> is_test_running (fst ?end)" by simp
  from ft e1 e2 e3 tl show ?thesis
    by (intro exI [where x = "fst ?end"] exI [where x = "snd ?end"]) simp
qed


lemma forward_loop_no_samples:
  assumes "\<forall>s. fst (read_7019_2 ar e flt s) = None"
  shows "fst (forward_loop ar stops e flt n step s) = None \<and>
         plus_dim_press (fst (snd (forward_loop ar stops e flt n step s))) = plus_dim_press (fst s)"
proof (induction n arbitrary: step s)
  case 0
  show ?case by simp
next
  case (Suc n)
  show ?case
  proof (cases "stop_igra (fst s)")
    case True
    then show ?thesis by (simp add: forward_loop_stopped)
  next
    case False
    let ?s1 = "snd (sample_step ar stops e flt step s)"
    from assms have r: "fst (read_7019_2 ar e flt (gui_stop stops s)) = None"
      by blast
    have a: "fst (sample_step ar stops e flt step s) = None"
      "plus_dim_press (fst ?s1) = plus_dim_press (fst s)"
      by (simp_all add: sample_step_result sample_step_samples r)
    from Suc.IH [of "Suc step" "pulse_step stops e ?s1"] a False
    show ?thesis by (simp add: forward_loop_step)
  qed
qed

lemma test_loop_no_samples:
  assumes "\<forall>s. fst (read_7019_2 ar e flt s) = None"
  shows "fst (test_loop ar stops e flt (f, w)) = None"
    "plus_dim_press (fst (snd (test_loop ar stops e flt (f, w)))) = plus_dim_press (controller f)"
proof -
  obtain f1 w1 where p: "prepare stops e (reset_for_test f, w) = (f1, w1)"
    by (cases "prepare stops e (reset_for_test f, w)") auto
  have "plus_dim_press (controller (reset_for_test f)) = plus_dim_press (controller f)"
    by (simp add: reset_for_test_def)
  with prepare_facts(2) [of stops e "(reset_for_test f, w)"] p
  have "plus_dim_press (controller f1) = plus_dim_press (controller f)"
    by simp
  with forward_loop_no_samples [OF assms, of stops "nat (plus_step (controller f1))" 0 "(controller f1, w1)"] p
  show "fst (test_loop ar stops e flt (f, w)) = None"
    "plus_dim_press (fst (snd (test_loop ar stops e flt (f, w)))) = plus_dim_press (controller f)"
    by (simp_all add: test_loop_def)
qed

lemma steady_empty_read: "fst (read_7019_2 double_arith (steady []) flt s) = None"
proof -
  obtain c w where s1: "snd (ensure_open (steady []) s) = (c, w)"
    by (cases "snd (ensure_open (steady []) s)") auto
  have "fst (read_exchange double_arith (steady []) flt (c, w)) = None"
    by (intro read_exchange_fails) (simp add: steady_def strip_def)
  with s1 show ?thesis by (simp add: read_7019_2_result)
qed


lemma test_loop_counter: "plus_counter (fst (snd (test_loop ar stops e flt (f, w)))) = 0"
proof -
  obtain f1 w1 where p: "prepare stops e (reset_for_test f, w) = (f1, w1)"
    by (cases "prepare stops e (reset_for_test f, w)") auto
  let ?l = "forward_loop ar stops e flt (nat (plus_step (controller f1))) 0 (controller f1, w1)"
  have s1: "same_settings (controller (reset_for_test f)) (controller f1)"
    using prepare_settings [of "(reset_for_test f, w)" stops e] p by simp
  have s2: "same_settings (controller f1) (fst (snd ?l))"
    using forward_loop_settings [of "(controller f1, w1)" ar stops e flt
        "nat (plus_step (controller f1))" 0] by simp
  from same_settings_fields(1) [OF same_settings_trans [OF s1 s2]]
  have "plus_counter (fst (snd ?l)) = 0"
    by (simp add: reset_for_test_def)
  with p show ?thesis by (simp add: test_loop_def)
qed
subsection \<open>A run without samples\<close>

text \<open>
  Claim C3: a run in which no read gives a sample records \<^verbatim>\<open>fixed_open = 0\<close> and ends
  \<open>Failed\<close> with the reason \<^verbatim>\<open>NoSamplesCollected\<close>, and \<^verbatim>\<open>max\<close> over the empty set raises
  nothing.  The code does not keep it: nothing guards the call of \<^verbatim>\<open>max\<close> at line 368 and
  the source has no reason of its own for a run without samples.  On a line that answers
  every read with an empty line, every read of the default run returns \<^verbatim>\<open>None\<close>: the loop
  ends without exception and with the samples untouched, \<^verbatim>\<open>max\<close> of the empty slice then
  raises \<^verbatim>\<open>ValueError\<close>, the handler of line 375 catches it and the run ends \<open>Failed\<close>
  with that \<^verbatim>\<open>ValueError\<close>.  \<^verbatim>\<open>fixed_open\<close> is 0 at the end because the constructor made
  it so: the assignment of line 369 is not reached.
\<close>

theorem no_samples_run_raises:
  "(\<forall>s. fst (read_7019_2 double_arith (steady []) dec_float s) = None) \<and>
   fst (test_loop double_arith never (steady []) dec_float (init_frame double_arith, init_world)) = None \<and>
   plus_dim_press (fst (snd (test_loop double_arith never (steady []) dec_float
        (init_frame double_arith, init_world)))) = replicate 41 (Fin 0) \<and>
   py_max double_arith (py_slice_to (replicate 41 (Fin 0)) 0) = Inl ValueError \<and>
   fst (analyse double_arith (fst (snd (test_loop double_arith never (steady []) dec_float
        (init_frame double_arith, init_world))))) = Some ValueError \<and>
   (\<exists>f' w'. forward_test double_arith never (steady []) dec_float
        (init_frame double_arith, init_world) = Some (Failed ValueError, f', w') \<and>
      fixed_open (controller f') = Fin 0 \<and> fixed_open (init_controller double_arith) = Fin 0)"
proof -
  let ?t = "test_loop double_arith never (steady []) dec_float (init_frame double_arith, init_world)"
  have h1: "\<not> is_test_running (init_frame double_arith)" by (simp add: init_frame_def)
  have rd: "\<forall>s. fst (read_7019_2 double_arith (steady []) dec_float s) = None"
    by (simp add: steady_empty_read)
  have t1: "fst ?t = None"
    using rd by (rule test_loop_no_samples(1))
  have "plus_dim_press (fst (snd ?t)) = plus_dim_press (controller (init_frame double_arith))"
    using rd by (rule test_loop_no_samples(2))
  then have t2: "plus_dim_press (fst (snd ?t)) = replicate 41 (Fin 0)"
    by (simp add: init_frame_def init_controller_def)
  have m: "py_max double_arith (py_slice_to (replicate 41 (Fin 0)) 0) = Inl ValueError"
    by (simp add: py_slice_to_def)
  from forward_test_result [OF h1, of double_arith never "steady []" dec_float init_world] t1
  obtain f' w' where r: "forward_test double_arith never (steady []) dec_float
        (init_frame double_arith, init_world) = Some (Failed ValueError, f', w')"
    "fixed_open (controller f') = fixed_open (controller (init_frame double_arith))"
    by auto
  have f0: "fixed_open (init_controller double_arith) = Fin 0"
    by (simp add: init_controller_def)
  with r(2) have f1: "fixed_open (controller f') = Fin 0"
    by (simp add: init_frame_def)
  have "plus_counter (fst (snd ?t)) = 0"
    by (rule test_loop_counter)
  then have a: "fst (analyse double_arith (fst (snd ?t))) = Some ValueError"
    by (simp add: analyse_no_counter)
  from rd t1 t2 m a r(1) f1 f0 show ?thesis by blast
qed

subsection \<open>Runs on a line that answers every read\<close>

lemma gui_stop_never [simp]: "gui_stop never s = s"
  by (cases s) (simp add: gui_stop_def never_def)

lemma steady_loop_overflows:
  assumes "same_settings (init_controller double_arith) (fst s)" and "\<not> stop_igra (fst s)"
    and "step \<le> length (plus_dim_press (fst s))"
    and "length (plus_dim_press (fst s)) < step + n"
  shows "fst (forward_loop double_arith never (steady ''0 0 0 0 0 11.614'') dec_float n step s) = Some IndexError"
  using assms
proof (induction n arbitrary: step s)
  case 0
  then show ?case by simp
next
  case (Suc n)
  let ?e = "steady ''0 0 0 0 0 11.614''"
  let ?b = "sample_step double_arith never ?e dec_float step s"
  have rd: "fst (read_7019_2 double_arith ?e dec_float s) = Some (Fin 3)"
    using Suc.prems(1) by (rule steady_read_good)
  show ?case
  proof (cases "step < length (plus_dim_press (fst s))")
    case False
    with rd have "fst ?b = Some IndexError"
      by (simp add: sample_step_result)
    with Suc.prems(2) show ?thesis by (simp add: forward_loop_step)
  next
    case True
    with rd have none: "fst ?b = None" by (simp add: sample_step_result)
    let ?s2 = "pulse_step never ?e (snd ?b)"
    have a: "same_settings (init_controller double_arith) (fst ?s2)"
      by (rule same_settings_trans [OF Suc.prems(1)
            same_settings_trans [OF sample_step_settings pulse_step_settings]])
    have b: "\<not> stop_igra (fst ?s2)"
      using Suc.prems(2) by (simp add: never_def)
    have len: "length (plus_dim_press (fst ?s2)) = length (plus_dim_press (fst s))"
      using rd by (simp add: sample_step_samples)
    from True len have c: "Suc step \<le> length (plus_dim_press (fst ?s2))" by simp
    from Suc.prems(4) len have d: "length (plus_dim_press (fst ?s2)) < Suc step + n" by simp
    from Suc.IH [OF a b c d] none Suc.prems(2) show ?thesis
      by (simp add: forward_loop_step)
  qed
qed

subsection \<open>The capacity of the sample buffer\<close>

text \<open>
  Claim C1: with the default step count of 80, every store at \<^verbatim>\<open>plus_dim_press[step]\<close>
  is inside the buffer.  The code does not keep it: the constructor gives the buffer 41
  entries and the loop 80 steps.  On a line that answers every read, the run of the
  default controller stores the samples of steps 0 to 40; the store of step 41 raises
  \<^verbatim>\<open>IndexError\<close>, which ends the loop, and the run ends \<open>Failed\<close>.
\<close>

theorem default_run_overflows_samples:
  "map_option fst (forward_test double_arith never (steady ''0 0 0 0 0 11.614'') dec_float
        ((init_frame double_arith), init_world)) = Some (Failed IndexError) \<and>
   length (plus_dim_press (init_controller double_arith)) = 41 \<and> plus_step (init_controller double_arith) = 80"
proof -
  let ?e = "steady ''0 0 0 0 0 11.614''"
  have h1: "\<not> is_test_running (init_frame double_arith)" by (simp add: init_frame_def)
  obtain f1 w1 where p: "prepare never ?e (reset_for_test (init_frame double_arith), init_world) = (f1, w1)"
    by (cases "prepare never ?e (reset_for_test (init_frame double_arith), init_world)") auto
  have r: "controller (reset_for_test (init_frame double_arith)) = (init_controller double_arith)"
    by (simp add: reset_for_test_def init_frame_def init_controller_def)
  have s1: "same_settings (init_controller double_arith) (controller f1)"
    using prepare_settings [of "(reset_for_test (init_frame double_arith), init_world)" never ?e] p r by simp
  have st: "\<not> stop_igra (controller f1)"
    using prepare_facts(3) [of ?e "(reset_for_test (init_frame double_arith), init_world)"] p r
    by (simp add: init_controller_def)
  have len: "length (plus_dim_press (controller f1)) = 41"
    using prepare_facts(2) [of never ?e "(reset_for_test (init_frame double_arith), init_world)"] p r
    by (simp add: init_controller_def)
  have ps: "nat (plus_step (controller f1)) = 80"
    using same_settings_fields(8) [OF s1] by (simp add: init_controller_def)
  have "fst (forward_loop double_arith never ?e dec_float 80 0 (controller f1, w1)) = Some IndexError"
    using s1 st len by (intro steady_loop_overflows) simp_all
  with p ps have "fst (test_loop double_arith never ?e dec_float ((init_frame double_arith), init_world)) = Some IndexError"
    by (simp add: test_loop_def)
  with forward_test_result [OF h1, of double_arith never ?e dec_float init_world]
  have "map_option fst (forward_test double_arith never ?e dec_float ((init_frame double_arith), init_world)) =
        Some (Failed IndexError)"
    by auto
  then show ?thesis by (simp add: init_controller_def)
qed


subsection \<open>The scenario of three steps\<close>

lemma ensure_open_three_steps: "fst (ensure_open three_steps s)"
  by (cases s) (simp add: ensure_open_def connect_def three_steps_def)

lemma three_steps_read:
  assumes "same_settings ((init_controller double_arith)\<lparr>plus_step := 3\<rparr>) (fst s)"
  shows "fst (read_7019_2 double_arith three_steps dec_float s) =
           (if tick (snd s) = 9 then Some (Fin (3 / 2)) else if tick (snd s) = 15 then Some (Fin 4) else None)"
proof -
  obtain c1 w1 where s1: "snd (ensure_open three_steps s) = (c1, w1)"
    by (cases "snd (ensure_open three_steps s)") auto
  have "same_settings (fst s) c1"
    using same_but_port_settings [OF ensure_open_same, of s three_steps] s1 by simp
  from same_settings_fields [OF same_settings_trans [OF assms this]]
  have f: "pressureChanel c1 = 5" "minMA c1 = lit double_arith (386 / 100)"
    "maxMA c1 = lit double_arith (19368 / 1000)"
    "minP c1 = lit double_arith 0" "maxP c1 = lit double_arith 6"
    by (simp_all add: init_controller_def)
  have t: "tick w1 = tick (snd s)"
    using ensure_open_keeps(6) [of three_steps s] s1 by simp
  have "fst (read_exchange double_arith three_steps dec_float (c1, w1)) =
           (if tick w1 = 9 then Some (Fin (3 / 2)) else if tick w1 = 15 then Some (Fin 4) else None)"
    by (simp add: f read_exchange_def write_frame_def parse_response_def strip_def split_def
        is_space_def three_steps_def py_getitem_def dec_float_def dec_value_def unsigned_dec_def
        digit_val_def pressure_norm_def double_eval)
  with s1 t ensure_open_three_steps [of s] show ?thesis
    by (simp add: read_7019_2_result)
qed


lemma three_steps_iteration:
  assumes "same_settings ((init_controller double_arith)\<lparr>plus_step := 3\<rparr>) (fst s)" and "\<not> stop_igra (fst s)"
    and "step < length (plus_dim_press (fst s))"
  shows "\<exists>s'. forward_loop double_arith never three_steps dec_float (Suc n) step s =
                 forward_loop double_arith never three_steps dec_float n (Suc step) s' \<and>
              same_settings ((init_controller double_arith)\<lparr>plus_step := 3\<rparr>) (fst s') \<and>
              \<not> stop_igra (fst s') \<and> tick (snd s') = tick (snd s) + 3 \<and>
              plus_dim_press (fst s') =
                (if tick (snd s) = 9 then (plus_dim_press (fst s))[step := Fin (3 / 2)]
                 else if tick (snd s) = 15 then (plus_dim_press (fst s))[step := Fin 4]
                 else plus_dim_press (fst s))"
proof -
  let ?b = "sample_step double_arith never three_steps dec_float step s"
  let ?s2 = "pulse_step never three_steps (snd ?b)"
  note rd = three_steps_read [OF assms(1)]
  from assms(3) have none: "fst ?b = None"
    by (simp add: sample_step_result rd)
  with assms(2) have a: "forward_loop double_arith never three_steps dec_float (Suc n) step s =
                 forward_loop double_arith never three_steps dec_float n (Suc step) ?s2"
    by (simp add: forward_loop_step)
  have b: "same_settings ((init_controller double_arith)\<lparr>plus_step := 3\<rparr>) (fst ?s2)"
    by (rule same_settings_trans [OF assms(1)
          same_settings_trans [OF sample_step_settings pulse_step_settings]])
  have c: "\<not> stop_igra (fst ?s2)"
    using assms(2) by (simp add: never_def)
  have d: "tick (snd ?s2) = tick (snd s) + 3" by simp
  have e: "plus_dim_press (fst ?s2) =
                (if tick (snd s) = 9 then (plus_dim_press (fst s))[step := Fin (3 / 2)]
                 else if tick (snd s) = 15 then (plus_dim_press (fst s))[step := Fin 4]
                 else plus_dim_press (fst s))"
    by (simp add: sample_step_samples rd)
  from a b c d e show ?thesis by blast
qed

subsection \<open>The maximum of the samples\<close>

text \<open>
  Claim C2: at the end of the loop \<^verbatim>\<open>fixed_open\<close> is the maximum of the samples
  collected, so the run of three steps with samples 1.5 at step 0 and 4.0 at step 2 and a
  failed read at step 1 ends \<open>Completed\<close> with \<^verbatim>\<open>fixed_open = 4.0\<close>.  The code does not
  keep it: the maximum is taken over \<^verbatim>\<open>plus_dim_press[:plus_counter]\<close>, and nothing
  counts \<^verbatim>\<open>plus_counter\<close> up from the 0 that the button handler gives it.  In that run
  the samples are stored as the claim says (1.5, the default 0, 4.0), but \<^verbatim>\<open>max\<close> raises
  \<^verbatim>\<open>ValueError\<close> on the empty slice: the run ends \<open>Failed\<close> and \<^verbatim>\<open>fixed_open\<close> stays 0.
\<close>

theorem three_step_scenario:
  "\<exists>f' w'. forward_test double_arith never three_steps dec_float
        ((init_frame double_arith)\<lparr>controller := (init_controller double_arith)\<lparr>plus_step := 3\<rparr>\<rparr>, init_world) =
        Some (Failed ValueError, f', w') \<and>
     fixed_open (controller f') = Fin 0 \<and>
     plus_dim_press (controller f') ! 0 = Fin (3 / 2) \<and>
     plus_dim_press (controller f') ! 1 = Fin 0 \<and>
     plus_dim_press (controller f') ! 2 = Fin 4"
proof -
  let ?c3 = "(init_controller double_arith)\<lparr>plus_step := 3\<rparr>"
  let ?f = "(init_frame double_arith)\<lparr>controller := ?c3\<rparr>"
  have h1: "\<not> is_test_running ?f" by (simp add: init_frame_def)
  obtain f1 w1 where p: "prepare never three_steps (reset_for_test ?f, init_world) = (f1, w1)"
    by (cases "prepare never three_steps (reset_for_test ?f, init_world)") auto
  have r: "controller (reset_for_test ?f) = ?c3"
    by (simp add: reset_for_test_def init_frame_def init_controller_def)
  have s1: "same_settings ?c3 (fst (controller f1, w1))"
    using prepare_settings [of "(reset_for_test ?f, init_world)" never three_steps] p r by simp
  have c3: "\<not> stop_igra ?c3" "plus_dim_press ?c3 = replicate 41 (Fin 0)"
    by (simp_all add: init_controller_def)
  have "stop_igra (controller f1) = stop_igra ?c3"
    using prepare_facts(3) [of three_steps "(reset_for_test ?f, init_world)"] p r by simp
  with c3(1) have st: "\<not> stop_igra (fst (controller f1, w1))" by simp
  have "plus_dim_press (controller f1) = plus_dim_press ?c3"
    using prepare_facts(2) [of never three_steps "(reset_for_test ?f, init_world)"] p r by simp
  with c3(2) have xs: "plus_dim_press (controller f1) = replicate 41 (Fin 0)" by simp
  have "tick w1 = tick init_world + 9"
    using prepare_facts(1) [of never three_steps "(reset_for_test ?f, init_world)"] p by simp
  then have t: "tick w1 = 9" by (simp add: init_world_def)
  have ps: "nat (plus_step (controller f1)) = Suc (Suc (Suc 0))"
    using same_settings_fields(8) [OF s1] by simp
  from three_steps_iteration [OF s1 st, of 0 "Suc (Suc 0)"] xs t
  obtain s2 where i1: "forward_loop double_arith never three_steps dec_float (Suc (Suc (Suc 0))) 0 (controller f1, w1) =
                 forward_loop double_arith never three_steps dec_float (Suc (Suc 0)) (Suc 0) s2"
    "same_settings ?c3 (fst s2)" "\<not> stop_igra (fst s2)" "tick (snd s2) = 12"
    "plus_dim_press (fst s2) = (replicate 41 (Fin 0))[0 := Fin (3 / 2)]"
    by auto
  from three_steps_iteration [OF i1(2,3), of "Suc 0" "Suc 0"] i1(4,5)
  obtain s3 where i2: "forward_loop double_arith never three_steps dec_float (Suc (Suc 0)) (Suc 0) s2 =
                 forward_loop double_arith never three_steps dec_float (Suc 0) (Suc (Suc 0)) s3"
    "same_settings ?c3 (fst s3)" "\<not> stop_igra (fst s3)" "tick (snd s3) = 15"
    "plus_dim_press (fst s3) = (replicate 41 (Fin 0))[0 := Fin (3 / 2)]"
    by auto
  from three_steps_iteration [OF i2(2,3), of "Suc (Suc 0)" 0] i2(4,5)
  obtain s4 where i3: "forward_loop double_arith never three_steps dec_float (Suc 0) (Suc (Suc 0)) s3 =
                 forward_loop double_arith never three_steps dec_float 0 (Suc (Suc (Suc 0))) s4"
    "plus_dim_press (fst s4) = (replicate 41 (Fin 0))[0 := Fin (3 / 2), Suc (Suc 0) := Fin 4]"
    by auto
  have "forward_loop double_arith never three_steps dec_float (Suc (Suc (Suc 0))) 0 (controller f1, w1) = (None, s4)"
    by (simp only: i1(1) i2(1) i3(1) forward_loop.simps(1))
  with p ps have tl: "test_loop double_arith never three_steps dec_float (?f, init_world) = (None, s4)"
    by (simp add: test_loop_def)
  from forward_test_result [OF h1, of double_arith never three_steps dec_float init_world]
  obtain f' w' where res: "forward_test double_arith never three_steps dec_float (?f, init_world) =
           Some (Failed (case fst (test_loop double_arith never three_steps dec_float (?f, init_world)) of
                           Some y \<Rightarrow> y | None \<Rightarrow> ValueError), f', w')"
    "plus_dim_press (controller f') =
       plus_dim_press (fst (snd (test_loop double_arith never three_steps dec_float (?f, init_world))))"
    "fixed_open (controller f') = fixed_open (controller ?f)"
    by blast
  have a: "forward_test double_arith never three_steps dec_float (?f, init_world) = Some (Failed ValueError, f', w')"
    using res(1) tl by simp
  have b: "fixed_open (controller f') = Fin 0"
    using res(3) by (simp add: init_controller_def)
  have c: "plus_dim_press (controller f') = (replicate 41 (Fin 0))[0 := Fin (3 / 2), Suc (Suc 0) := Fin 4]"
    using res(2) tl i3(2) by simp
  have d: "plus_dim_press (controller f') ! 0 = Fin (3 / 2)" "plus_dim_press (controller f') ! 1 = Fin 0"
    "plus_dim_press (controller f') ! 2 = Fin 4"
    by (simp_all add: c numeral_2_eq_2)
  from a b d show ?thesis by blast
qed

end
